theory Spec2Isabelle
  imports Main "HOL-Library.Sublist" "HOL-Library.AList"
begin

section \<open>Byte strings: the operations of Go's \<open>bytes\<close> and \<open>strings\<close> packages the handler uses\<close>

text \<open>
  A Go \<open>[]byte\<close> and a Go \<open>string\<close> are both sequences of bytes; both are modelled as
  \<open>string\<close> (a list of 8-bit characters). The handler only ever splits and joins on a
  one-byte separator (\<open>"\n"\<close> in \<open>removeTimestampComments\<close>, \<open>"/"\<close> in
  \<open>cleanupOldDailyBackups\<close>), so the separator is a single character here.
\<close>

text \<open>\<open>bytes.Split(s, sep)\<close> / \<open>strings.Split(s, sep)\<close> for a one-byte separator: the pieces between
  the separators, always at least one piece (the empty input gives one empty piece).\<close>

fun Split :: "string \<Rightarrow> char \<Rightarrow> string list" where
  "Split [] sep = [[]]"
| "Split (x # xs) sep =
     (if x = sep then [] # Split xs sep
      else (case Split xs sep of
              [] \<Rightarrow> [[x]]
            | l # ls \<Rightarrow> (x # l) # ls))"

text \<open>\<open>bytes.Join(parts, sep)\<close> for a one-byte separator; joining no parts gives the empty
  byte string.\<close>

fun Join :: "string list \<Rightarrow> char \<Rightarrow> string" where
  "Join [] sep = []"
| "Join [l] sep = l"
| "Join (l # l' # ls) sep = l @ sep # Join (l' # ls) sep"

text \<open>\<open>bytes.HasPrefix\<close>, \<open>strings.TrimSuffix\<close> and \<open>strings.Contains\<close>.\<close>

definition HasPrefix :: "string \<Rightarrow> string \<Rightarrow> bool" where
  "HasPrefix s p = prefix p s"

definition TrimSuffix :: "string \<Rightarrow> string \<Rightarrow> string" where
  "TrimSuffix s suf = (if suffix suf s then take (length s - length suf) s else s)"

definition Contains :: "string \<Rightarrow> string \<Rightarrow> bool" where
  "Contains s sub = sublist sub s"

definition newline :: char where
  "newline = CHR 0x0A"

section \<open>Normalisation of the dump (\<open>removeTimestampComments\<close>, main.go 584-598)\<close>

text \<open>The test of the loop body: the line starts with one of the two marker prefixes and
  is dropped.\<close>

definition is_timestamp_comment :: "string \<Rightarrow> bool" where
  "is_timestamp_comment line =
     (HasPrefix line ''-- Started on '' \<or> HasPrefix line ''-- Completed on '')"

definition removeTimestampComments :: "string \<Rightarrow> string" where
  "removeTimestampComments data =
     (let lines = Split data newline;
          filtered = filter (\<lambda>line. \<not> is_timestamp_comment line) lines
      in Join filtered newline)"

section \<open>Calendar time (Go's \<open>time\<close> package, as far as the handler uses it)\<close>

text \<open>
  A \<open>time.Time\<close> is modelled by its civil date and the nanoseconds elapsed since midnight.
  The function runs with the process time zone UTC (the Lambda default: the schedule of the
  README is given in UTC), so the civil fields of \<open>time.Now()\<close> are UTC fields, and a date
  parsed by \<open>time.Parse\<close> (always UTC) is comparable with them.
\<close>

record gotime =
  Year :: nat
  Month :: nat
  Day :: nat
  Nanos :: nat

definition nsPerDay :: int where
  "nsPerDay = 86400000000000"

definition isLeap :: "nat \<Rightarrow> bool" where
  "isLeap y = (y mod 4 = 0 \<and> (y mod 100 \<noteq> 0 \<or> y mod 400 = 0))"

definition daysIn :: "nat \<Rightarrow> nat \<Rightarrow> nat" where
  "daysIn m y =
     (if m = 2 then (if isLeap y then 29 else 28)
      else if m = 4 \<or> m = 6 \<or> m = 9 \<or> m = 11 then 30 else 31)"

text \<open>Days of a common year before the first of month \<open>m\<close>.\<close>

definition daysBefore :: "nat \<Rightarrow> nat" where
  "daysBefore m =
     (if 1 \<le> m \<and> m \<le> 12
      then [0, 31, 59, 90, 120, 151, 181, 212, 243, 273, 304, 334] ! (m - 1) else 0)"

text \<open>Days from 0000-01-01 to the first of January of year \<open>y\<close> (proleptic Gregorian
  calendar, the year 0 being a leap year).\<close>

definition daysBeforeYear :: "nat \<Rightarrow> nat" where
  "daysBeforeYear y = 365 * y + (y + 3) div 4 + (y + 399) div 400 - (y + 99) div 100"

definition absDay :: "gotime \<Rightarrow> int" where
  "absDay t =
     int (daysBeforeYear (Year t)) + int (daysBefore (Month t))
       + (if 2 < Month t \<and> isLeap (Year t) then 1 else 0) + int (Day t) - 1"

text \<open>The instant of a time value, in nanoseconds since 0000-01-01T00:00:00Z. \<open>Before\<close>
  compares instants.\<close>

definition instant :: "gotime \<Rightarrow> int" where
  "instant t = absDay t * nsPerDay + int (Nanos t)"

definition Before :: "int \<Rightarrow> int \<Rightarrow> bool" where
  "Before t u = (t < u)"

text \<open>\<open>t.AddDate(0, 0, days)\<close>: the same wall-clock time \<open>days\<close> calendar days later (earlier
  when negative); in UTC that is the instant moved by whole days. The result is only ever
  compared, so it is given as an instant.\<close>

definition AddDate_days :: "gotime \<Rightarrow> int \<Rightarrow> int" where
  "AddDate_days t days = instant t + days * nsPerDay"

text \<open>Decimal formatting as \<open>Time.Format\<close> does it: zero-padded to a minimal width.\<close>

definition digit :: "nat \<Rightarrow> char" where
  "digit n = (if n < 10 then ''0123456789'' ! n else CHR ''?'')"

fun decimal :: "nat \<Rightarrow> string" where
  "decimal n = (if n < 10 then [digit n] else decimal (n div 10) @ [digit (n mod 10)])"

declare decimal.simps [simp del]

definition appendInt :: "nat \<Rightarrow> nat \<Rightarrow> string" where
  "appendInt x width = replicate (width - length (decimal x)) (CHR ''0'') @ decimal x"

text \<open>\<open>now.Format("2006")\<close>, \<open>now.Format("2006-01")\<close> and \<open>now.Format("2006-01-02")\<close>.\<close>

definition Format_2006 :: "gotime \<Rightarrow> string" where
  "Format_2006 t = appendInt (Year t) 4"

definition Format_2006_01 :: "gotime \<Rightarrow> string" where
  "Format_2006_01 t = appendInt (Year t) 4 @ ''-'' @ appendInt (Month t) 2"

definition Format_2006_01_02 :: "gotime \<Rightarrow> string" where
  "Format_2006_01_02 t =
     appendInt (Year t) 4 @ ''-'' @ appendInt (Month t) 2 @ ''-'' @ appendInt (Day t) 2"

text \<open>
  \<open>time.Parse("2006-01-02", value)\<close>, element by element as the library consumes the
  layout: four digits of year, a hyphen, two digits of month (1 to 12), a hyphen, two digits
  of day, nothing after them, and at last the day checked against the month's length.
\<close>

definition isDigit :: "char \<Rightarrow> bool" where
  "isDigit c = (c \<in> set ''0123456789'')"

definition digitVal :: "char \<Rightarrow> nat" where
  "digitVal c = of_char c - 48"

text \<open>\<open>getnum(s, fixed = true)\<close>: exactly two leading digits.\<close>

definition getnum_fixed :: "string \<Rightarrow> (nat \<times> string) option" where
  "getnum_fixed s =
     (case s of
        a # b # rest \<Rightarrow>
          if isDigit a \<and> isDigit b then Some (digitVal a * 10 + digitVal b, rest) else None
      | _ \<Rightarrow> None)"

text \<open>
  The text of a failed parse, \<open>(*ParseError).Error()\<close>, as the library of Go 1.21 (the
  version the README asks for) and later builds it. \<open>quote\<close> is the package's own function
  of that name: the string between double quotes, a double quote or backslash escaped with a
  backslash, and every byte below 0x20 or from 0x80 on written as \<open>\x\<close> and two hexadecimal
  digits.
\<close>

definition lowerhex :: "nat \<Rightarrow> char" where
  "lowerhex n = (if n < 16 then ''0123456789abcdef'' ! n else CHR ''?'')"

definition quote_byte :: "char \<Rightarrow> string" where
  "quote_byte c =
     (if 128 \<le> (of_char c :: nat) \<or> (of_char c :: nat) < 32
      then [CHR 0x5C, CHR ''x'', lowerhex (of_char c div 16), lowerhex (of_char c mod 16)]
      else if c = CHR 0x22 \<or> c = CHR 0x5C then [CHR 0x5C, c]
      else [c])"

definition quote :: "string \<Rightarrow> string" where
  "quote s = [CHR 0x22] @ concat (map quote_byte s) @ [CHR 0x22]"

definition ParseError_Error :: "string \<Rightarrow> string \<Rightarrow> string \<Rightarrow> string \<Rightarrow> string \<Rightarrow> string" where
  "ParseError_Error layout value layoutElem valueElem message =
     (if message = []
      then ''parsing time '' @ quote value @ '' as '' @ quote layout @ '': cannot parse ''
             @ quote valueElem @ '' as '' @ quote layoutElem
      else ''parsing time '' @ quote value @ message)"

text \<open>The parse itself. A layout element that cannot be read reports the value as it stood
  before that element; a literal hyphen that is missing reports the rest of the value.\<close>

definition time_Parse :: "string \<Rightarrow> string + gotime" where
  "time_Parse v =
     (if length v < 4 \<or> \<not> list_all isDigit (take 4 v)
      then Inl (ParseError_Error ''2006-01-02'' v ''2006'' v [])
      else
        let year = foldl (\<lambda>n c. n * 10 + digitVal c) 0 (take 4 v);
            v1 = drop 4 v
        in if \<not> HasPrefix v1 ''-''
           then Inl (ParseError_Error ''2006-01-02'' v ''-'' v1 [])
           else case getnum_fixed (drop 1 v1) of
             None \<Rightarrow> Inl (ParseError_Error ''2006-01-02'' v ''01'' (drop 1 v1) [])
           | Some (month, v2) \<Rightarrow>
               if month \<le> 0 \<or> 12 < month
               then Inl (ParseError_Error ''2006-01-02'' v ''01'' v2 '': month out of range'')
               else if \<not> HasPrefix v2 ''-''
               then Inl (ParseError_Error ''2006-01-02'' v ''-'' v2 [])
               else case getnum_fixed (drop 1 v2) of
                 None \<Rightarrow> Inl (ParseError_Error ''2006-01-02'' v ''02'' (drop 1 v2) [])
               | Some (day, v3) \<Rightarrow>
                   if v3 \<noteq> []
                   then Inl (ParseError_Error ''2006-01-02'' v [] v3
                               ('': extra text: '' @ quote v3))
                   else if day < 1 \<or> daysIn month year < day
                   then Inl (ParseError_Error ''2006-01-02'' v [] v3 '': day out of range'')
                   else Inr \<lparr>Year = year, Month = month, Day = day, Nanos = 0\<rparr>)"

section \<open>The bucket, the log and the environment of one invocation\<close>

text \<open>
  A stored object: its payload, its user metadata (a Go \<open>map[string]string\<close>, \<open>nil\<close> being
  the empty map) and the modification time the store keeps for it. The bucket is the list
  of its keys with their objects, in the order a listing returns them.
\<close>

record s3_object =
  Body :: string
  Metadata :: "(string \<times> string) list"
  LastModified :: int

text \<open>Every request the handler sends is recorded, in order, with what it sent.\<close>

datatype s3_call =
    ListObjectsV2_call string
  | HeadObject_call string
  | GetObject_call string
  | Body_read_call string
  | PutObject_call string string "(string \<times> string) list"
  | DeleteObject_call string

text \<open>A call of \<open>log.Println\<close> or \<open>log.Printf\<close>: the text, or the format and its arguments.\<close>

datatype log_entry = Println string | Printf string "string list"

record world =
  objects :: "(string \<times> s3_object) list"
  calls :: "s3_call list"
  logs :: "log_entry list"

text \<open>
  What the invocation does not control: the digest function of \<open>crypto/sha256\<close> (any
  function from bytes to the 32 digest bytes), the outcome of running \<open>pg_dump\<close> (its
  standard output, or the error of \<open>createBackup\<close>), the two readings of the clock
  (\<open>time.Now()\<close> in \<open>HandleRequest\<close> and in \<open>cleanupOldDailyBackups\<close>), and the store: the
  \<open>n\<close>-th request of the run fails with the error text \<open>faults n\<close> when there is one, and a
  write made by the \<open>n\<close>-th request gets the modification time \<open>stamps n\<close>.
\<close>

record env =
  sha256_Sum256 :: "string \<Rightarrow> string"
  pg_dump :: "string + string"
  now_HandleRequest :: gotime
  now_cleanup :: gotime
  faults :: "nat \<Rightarrow> string option"
  stamps :: "nat \<Rightarrow> int"

definition log_Println :: "string \<Rightarrow> world \<Rightarrow> world" where
  "log_Println msg w = w\<lparr>logs := logs w @ [Println msg]\<rparr>"

definition log_Printf :: "string \<Rightarrow> string list \<Rightarrow> world \<Rightarrow> world" where
  "log_Printf fmt args w = w\<lparr>logs := logs w @ [Printf fmt args]\<rparr>"

subsection \<open>The store's operations\<close>

definition request :: "env \<Rightarrow> s3_call \<Rightarrow> world \<Rightarrow> string option \<times> world" where
  "request env c w = (faults env (length (calls w)), w\<lparr>calls := calls w @ [c]\<rparr>)"

text \<open>The error text of a \<open>HeadObject\<close> on a key that has no object (a 404 response), and
  of a \<open>GetObject\<close> on one; the request identifiers the client puts in the middle of the
  text are left out. The handler looks only for the word \<open>NotFound\<close> in the first.\<close>

definition HeadObject_NotFound :: string where
  "HeadObject_NotFound =
     ''operation error S3: HeadObject, https response error StatusCode: 404, api error NotFound: Not Found''"

definition GetObject_NoSuchKey :: string where
  "GetObject_NoSuchKey =
     ''operation error S3: GetObject, https response error StatusCode: 404, api error NoSuchKey: The specified key does not exist.''"

text \<open>One \<open>ListObjectsV2\<close> request returns at most 1000 keys; the handler reads one page.\<close>

definition MaxKeys :: nat where
  "MaxKeys = 1000"

definition ListObjectsV2 ::
  "env \<Rightarrow> string \<Rightarrow> world \<Rightarrow> (string + (string \<times> int) list) \<times> world" where
  "ListObjectsV2 env pfx w =
     (case request env (ListObjectsV2_call pfx) w of
        (Some err, w') \<Rightarrow> (Inl err, w')
      | (None, w') \<Rightarrow>
          (Inr (take MaxKeys
                  (map (\<lambda>(k, ob). (k, LastModified ob))
                       (filter (\<lambda>(k, ob). prefix pfx k) (objects w)))), w'))"

definition HeadObject ::
  "env \<Rightarrow> string \<Rightarrow> world \<Rightarrow> (string + (string \<times> string) list) \<times> world" where
  "HeadObject env key w =
     (case request env (HeadObject_call key) w of
        (Some err, w') \<Rightarrow> (Inl err, w')
      | (None, w') \<Rightarrow>
          (case map_of (objects w) key of
             None \<Rightarrow> (Inl HeadObject_NotFound, w')
           | Some ob \<Rightarrow> (Inr (Metadata ob), w')))"

definition GetObject :: "env \<Rightarrow> string \<Rightarrow> world \<Rightarrow> (string + string) \<times> world" where
  "GetObject env key w =
     (case request env (GetObject_call key) w of
        (Some err, w') \<Rightarrow> (Inl err, w')
      | (None, w') \<Rightarrow>
          (case map_of (objects w) key of
             None \<Rightarrow> (Inl GetObject_NoSuchKey, w')
           | Some ob \<Rightarrow> (Inr (Body ob), w')))"

text \<open>Reading the body of a \<open>GetObject\<close> response to its end (\<open>io.Copy\<close>), which can fail
  on its own.\<close>

definition read_Body :: "env \<Rightarrow> string \<Rightarrow> string \<Rightarrow> world \<Rightarrow> (string + string) \<times> world" where
  "read_Body env key body w =
     (case request env (Body_read_call key) w of
        (Some err, w') \<Rightarrow> (Inl err, w')
      | (None, w') \<Rightarrow> (Inr body, w'))"

definition PutObject ::
  "env \<Rightarrow> string \<Rightarrow> string \<Rightarrow> (string \<times> string) list \<Rightarrow> world \<Rightarrow> (string + unit) \<times> world" where
  "PutObject env key data md w =
     (case request env (PutObject_call key data md) w of
        (Some err, w') \<Rightarrow> (Inl err, w')
      | (None, w') \<Rightarrow>
          (Inr (),
           w'\<lparr>objects :=
                AList.update key
                  \<lparr>Body = data, Metadata = md, LastModified = stamps env (length (calls w))\<rparr>
                  (objects w)\<rparr>))"

definition DeleteObject :: "env \<Rightarrow> string \<Rightarrow> world \<Rightarrow> (string + unit) \<times> world" where
  "DeleteObject env key w =
     (case request env (DeleteObject_call key) w of
        (Some err, w') \<Rightarrow> (Inl err, w')
      | (None, w') \<Rightarrow> (Inr (), w'\<lparr>objects := AList.delete key (objects w)\<rparr>))"

section \<open>The handler (cmd/lambda/main.go, lines 414 to 772)\<close>

text \<open>
  The file holds two copies of the program; the model follows the later one (lines 314 to
  783), which is the one that fingerprints the dump. The log of the model holds the lines
  written by \<open>HandleRequest\<close> and \<open>cleanupOldDailyBackups\<close>; the lines \<open>createBackup\<close>
  writes about its environment are left out.
\<close>

text \<open>\<open>createBackup\<close> (495-582): the dump of \<open>pg_dump\<close>, normalised.\<close>

definition createBackup :: "env \<Rightarrow> string + string" where
  "createBackup env =
     (case pg_dump env of
        Inl err \<Rightarrow> Inl err
      | Inr stdout \<Rightarrow> Inr (removeTimestampComments stdout))"

text \<open>\<open>hex.EncodeToString\<close> and \<open>calculateChecksum\<close> (630-633).\<close>

definition hexdigit :: "nat \<Rightarrow> char" where
  "hexdigit n = (if n < 16 then ''0123456789abcdef'' ! n else CHR ''?'')"

definition hex_EncodeToString :: "string \<Rightarrow> string" where
  "hex_EncodeToString bs =
     concat (map (\<lambda>b. [hexdigit (of_char b div 16), hexdigit (of_char b mod 16)]) bs)"

definition calculateChecksum :: "env \<Rightarrow> string \<Rightarrow> string" where
  "calculateChecksum env data = hex_EncodeToString (sha256_Sum256 env data)"

text \<open>\<open>findMostRecentBackup\<close> (600-628). The loop keeps the first object whose
  \<open>LastModified\<close> no later object exceeds; \<open>None\<close> is \<open>found = false\<close>.\<close>

fun mostRecent_loop :: "(string \<times> int) list \<Rightarrow> (string \<times> int) option \<Rightarrow> (string \<times> int) option" where
  "mostRecent_loop [] mostRecent = mostRecent"
| "mostRecent_loop (obj # rest) mostRecent =
     mostRecent_loop rest
       (case mostRecent of
          None \<Rightarrow> Some obj
        | Some m \<Rightarrow> if snd m < snd obj then Some obj else Some m)"

definition findMostRecentBackup :: "env \<Rightarrow> string \<Rightarrow> world \<Rightarrow> (string + string) \<times> world" where
  "findMostRecentBackup env pfx w =
     (case ListObjectsV2 env pfx w of
        (Inl err, w') \<Rightarrow> (Inl err, w')
      | (Inr contents, w') \<Rightarrow>
          if length contents = 0 then (Inr [], w')
          else (case mostRecent_loop contents None of
                  Some m \<Rightarrow> (Inr (fst m), w')
                | None \<Rightarrow> (Inr [], w')))"

text \<open>\<open>getObjectChecksum\<close> (635-669).\<close>

definition getObjectChecksum :: "env \<Rightarrow> string \<Rightarrow> world \<Rightarrow> (string + string) \<times> world" where
  "getObjectChecksum env key w =
     (case HeadObject env key w of
        (Inl err, w1) \<Rightarrow> (Inl err, w1)
      | (Inr md, w1) \<Rightarrow>
          (case map_of md ''sha256'' of
             Some checksum \<Rightarrow> (Inr checksum, w1)
           | None \<Rightarrow>
               (case GetObject env key w1 of
                  (Inl err, w2) \<Rightarrow> (Inl err, w2)
                | (Inr body, w2) \<Rightarrow>
                    (case read_Body env key body w2 of
                       (Inl err, w3) \<Rightarrow> (Inl err, w3)
                     | (Inr bytes, w3) \<Rightarrow>
                         (Inr (hex_EncodeToString (sha256_Sum256 env bytes)), w3)))))"

text \<open>\<open>uploadToS3WithChecksum\<close> (692-703). The content type it sends is the same constant for
  every write and is not recorded.\<close>

definition uploadToS3WithChecksum ::
  "env \<Rightarrow> string \<Rightarrow> string \<Rightarrow> string \<Rightarrow> world \<Rightarrow> (string + unit) \<times> world" where
  "uploadToS3WithChecksum env key data checksum w =
     PutObject env key data [(''sha256'', checksum)] w"

text \<open>\<open>objectExists\<close> (715-728).\<close>

definition objectExists :: "env \<Rightarrow> string \<Rightarrow> world \<Rightarrow> (string + bool) \<times> world" where
  "objectExists env key w =
     (case HeadObject env key w of
        (Inl err, w') \<Rightarrow>
          if Contains err ''NotFound'' then (Inr False, w') else (Inl err, w')
      | (Inr md, w') \<Rightarrow> (Inr True, w'))"

text \<open>\<open>cleanupOldDailyBackups\<close> (730-772): the body of the loop for one listed object, the
  loop, and the function.\<close>

definition cleanup_step :: "env \<Rightarrow> int \<Rightarrow> string \<times> int \<Rightarrow> world \<Rightarrow> world" where
  "cleanup_step env cutoff obj w =
     (let parts = Split (fst obj) (CHR ''/'')
      in if length parts \<noteq> 2 then w
         else
           let datePart = TrimSuffix (parts ! 1) ''-backup.sql''
           in case time_Parse datePart of
                Inl err \<Rightarrow>
                  log_Printf ''Warning: failed to parse date from key %s: %v'' [fst obj, err] w
              | Inr backupDate \<Rightarrow>
                  if Before (instant backupDate) cutoff
                  then (case DeleteObject env (fst obj) w of
                          (Inl err, w') \<Rightarrow>
                            log_Printf ''Warning: failed to delete old backup %s: %v''
                              [fst obj, err] w'
                        | (Inr u, w') \<Rightarrow>
                            log_Printf ''Deleted old daily backup: %s'' [fst obj] w')
                  else w)"

fun cleanup_loop :: "env \<Rightarrow> int \<Rightarrow> (string \<times> int) list \<Rightarrow> world \<Rightarrow> world" where
  "cleanup_loop env cutoff [] w = w"
| "cleanup_loop env cutoff (obj # rest) w =
     cleanup_loop env cutoff rest (cleanup_step env cutoff obj w)"

definition cleanupOldDailyBackups :: "env \<Rightarrow> world \<Rightarrow> (string + unit) \<times> world" where
  "cleanupOldDailyBackups env w =
     (case ListObjectsV2 env ''daily/'' w of
        (Inl err, w') \<Rightarrow> (Inl (''failed to list daily backups: '' @ err), w')
      | (Inr contents, w') \<Rightarrow>
          (let cutoff = AddDate_days (now_cleanup env) (- 7)
           in (Inr (), cleanup_loop env cutoff contents w')))"

text \<open>\<open>HandleRequest\<close> (414-493) in its parts. Lines 432-446: the most recent daily
  object and \<open>contentChanged\<close>.\<close>

definition contentChanged_check :: "env \<Rightarrow> string \<Rightarrow> world \<Rightarrow> bool \<times> world" where
  "contentChanged_check env newChecksum w =
     (let (mostRecentBackup, w1) =
            (case findMostRecentBackup env ''daily/'' w of
               (Inl err, w') \<Rightarrow>
                 ([], log_Printf ''Warning: couldn't find most recent backup: %v'' [err] w')
             | (Inr k, w') \<Rightarrow> (k, w'))
      in if mostRecentBackup \<noteq> []
         then (case getObjectChecksum env mostRecentBackup w1 of
                 (Inr existingChecksum, w2) \<Rightarrow>
                   if existingChecksum = newChecksum
                   then (False,
                         log_Printf ''Backup content unchanged from %s, skipping all uploads''
                           [mostRecentBackup] w2)
                   else (True, w2)
               | (Inl err, w2) \<Rightarrow> (True, w2))
         else (True, w1))"

text \<open>Lines 463-472 (monthly) and 475-483 (yearly) are the same code but for the key and
  the tier's name in the texts: \<open>tier\<close> is \<open>monthly\<close> or \<open>yearly\<close>, \<open>Tier\<close> its capitalised
  form.\<close>

definition periodic_backup ::
  "env \<Rightarrow> string \<Rightarrow> string \<Rightarrow> string \<Rightarrow> string \<Rightarrow> string \<Rightarrow> world \<Rightarrow> (string + unit) \<times> world" where
  "periodic_backup env tier Tier key backupData newChecksum w =
     (case objectExists env key w of
        (Inl err, w1) \<Rightarrow> (Inl (''failed to check '' @ tier @ '' backup: '' @ err), w1)
      | (Inr exists, w1) \<Rightarrow>
          if \<not> exists
          then (case uploadToS3WithChecksum env key backupData newChecksum w1 of
                  (Inl err, w2) \<Rightarrow>
                    (Inl (''failed to upload '' @ tier @ '' backup: '' @ err), w2)
                | (Inr u, w2) \<Rightarrow>
                    (Inr (), log_Printf (Tier @ '' backup created: %s'') [key] w2))
          else (Inr (), w1))"

text \<open>Lines 486-492: the cleanup, whose error is only logged, and the last log line.\<close>

definition cleanup_and_finish :: "env \<Rightarrow> world \<Rightarrow> world" where
  "cleanup_and_finish env w =
     (let w1 = (case cleanupOldDailyBackups env w of
                  (Inl err, w') \<Rightarrow>
                    log_Printf ''Warning: failed to clean up old daily backups: %v'' [err] w'
                | (Inr u, w') \<Rightarrow> w')
      in log_Println ''Backup process completed successfully'' w1)"

text \<open>Lines 448-493 once \<open>contentChanged\<close> is true: the daily upload, the monthly and the
  yearly one, the cleanup. (The guard \<open>if contentChanged\<close> of line 462 is always true where
  it stands, the other branch having returned at line 458.)\<close>

definition upload_and_cleanup ::
  "env \<Rightarrow> string \<Rightarrow> string \<Rightarrow> world \<Rightarrow> (string + unit) \<times> world" where
  "upload_and_cleanup env backupData newChecksum w =
     (let now = now_HandleRequest env;
          year = Format_2006 now;
          month = Format_2006_01 now;
          day = Format_2006_01_02 now;
          dailyKey = ''daily/'' @ day @ ''-backup.sql'';
          monthlyKey = ''monthly/'' @ month @ ''-backup.sql'';
          yearlyKey = ''yearly/'' @ year @ ''-backup.sql''
      in case uploadToS3WithChecksum env dailyKey backupData newChecksum w of
           (Inl err, w1) \<Rightarrow> (Inl (''failed to upload daily backup: '' @ err), w1)
         | (Inr u, w1) \<Rightarrow>
             (case periodic_backup env ''monthly'' ''Monthly'' monthlyKey backupData newChecksum
                     (log_Printf ''Daily backup uploaded: %s'' [dailyKey] w1) of
                (Inl err, w2) \<Rightarrow> (Inl err, w2)
              | (Inr u, w2) \<Rightarrow>
                  (case periodic_backup env ''yearly'' ''Yearly'' yearlyKey backupData
                          newChecksum w2 of
                     (Inl err, w3) \<Rightarrow> (Inl err, w3)
                   | (Inr u, w3) \<Rightarrow> (Inr (), cleanup_and_finish env w3))))"

definition HandleRequest :: "env \<Rightarrow> world \<Rightarrow> (string + unit) \<times> world" where
  "HandleRequest env w0 =
     (let w = log_Println ''Starting database backup...'' w0
      in case createBackup env of
           Inl err \<Rightarrow> (Inl (''failed to create backup: '' @ err), w)
         | Inr backupData \<Rightarrow>
             (let newChecksum = calculateChecksum env backupData;
                  (contentChanged, w1) = contentChanged_check env newChecksum w
              in if contentChanged
                 then upload_and_cleanup env backupData newChecksum w1
                 else (Inr (), w1)))"

section \<open>Notions the claims are stated with\<close>

text \<open>The three keys of a run, as lines 449, 464 and 475 compute them.\<close>

abbreviation dailyKey :: "env \<Rightarrow> string" where
  "dailyKey env \<equiv> ''daily/'' @ Format_2006_01_02 (now_HandleRequest env) @ ''-backup.sql''"

abbreviation monthlyKey :: "env \<Rightarrow> string" where
  "monthlyKey env \<equiv> ''monthly/'' @ Format_2006_01 (now_HandleRequest env) @ ''-backup.sql''"

abbreviation yearlyKey :: "env \<Rightarrow> string" where
  "yearlyKey env \<equiv> ''yearly/'' @ Format_2006 (now_HandleRequest env) @ ''-backup.sql''"

text \<open>The world in which \<open>HandleRequest\<close> starts its work after its first log line.\<close>

abbreviation started :: "world \<Rightarrow> world" where
  "started w \<equiv> log_Println ''Starting database backup...'' w"

text \<open>The requests sent between two worlds, and the kinds of request that change the
  bucket.\<close>

definition new_calls :: "world \<Rightarrow> world \<Rightarrow> s3_call list" where
  "new_calls w w' = drop (length (calls w)) (calls w')"

fun is_PutObject :: "s3_call \<Rightarrow> bool" where
  "is_PutObject (PutObject_call k d md) = True"
| "is_PutObject c = False"

fun is_DeleteObject :: "s3_call \<Rightarrow> bool" where
  "is_DeleteObject (DeleteObject_call k) = True"
| "is_DeleteObject c = False"

text \<open>The listings of the daily prefix among the requests of a run: the first is the one
  of \<open>findMostRecentBackup\<close>, a second one is the start of the cleanup.\<close>

definition daily_listings :: "world \<Rightarrow> world \<Rightarrow> nat" where
  "daily_listings w w' = count_list (new_calls w w') (ListObjectsV2_call ''daily/'')"

text \<open>The keys the loop of \<open>cleanupOldDailyBackups\<close> asks the store to delete: two parts
  around one slash, the second (less its suffix) a date, that date before the cutoff.\<close>

definition prunable :: "int \<Rightarrow> string \<Rightarrow> bool" where
  "prunable cutoff key =
     (case Split key (CHR ''/'') of
        [dir, name] \<Rightarrow>
          (case time_Parse (TrimSuffix name ''-backup.sql'') of
             Inr backupDate \<Rightarrow> Before (instant backupDate) cutoff
           | Inl err \<Rightarrow> False)
      | _ \<Rightarrow> False)"

text \<open>Two lists of lines that differ only in timestamp-comment lines: the one becomes the
  other by changing, adding and leaving out lines that carry a marker.\<close>

fun lines_differ_only_in_timestamps :: "string list \<Rightarrow> string list \<Rightarrow> bool" where
  "lines_differ_only_in_timestamps [] [] = True"
| "lines_differ_only_in_timestamps (a # xs) [] =
     (is_timestamp_comment a \<and> lines_differ_only_in_timestamps xs [])"
| "lines_differ_only_in_timestamps [] (b # ys) =
     (is_timestamp_comment b \<and> lines_differ_only_in_timestamps [] ys)"
| "lines_differ_only_in_timestamps (a # xs) (b # ys) =
     ((a = b \<and> lines_differ_only_in_timestamps xs ys)
      \<or> (is_timestamp_comment a \<and> lines_differ_only_in_timestamps xs (b # ys))
      \<or> (is_timestamp_comment b \<and> lines_differ_only_in_timestamps (a # xs) ys))"

text \<open>The store tells "not found" apart from its other errors: no failure of a request
  carries the word the handler looks for in \<open>objectExists\<close>; only the answer for a key
  without an object does.\<close>

definition faults_distinguish_NotFound :: "env \<Rightarrow> bool" where
  "faults_distinguish_NotFound env = (\<forall>n e. faults env n = Some e \<longrightarrow> \<not> Contains e ''NotFound'')"

text \<open>Successive invocations on the same bucket, each in its own environment.\<close>

fun runs :: "env list \<Rightarrow> world \<Rightarrow> world" where
  "runs [] w = w"
| "runs (env # envs) w = runs envs (snd (HandleRequest env w))"

text \<open>The errors with which the part of \<open>HandleRequest\<close> after the comparison can end: those
  of lines 452, 466, 469, 477 and 480.\<close>

definition is_upload_error :: "string \<Rightarrow> bool" where
  "is_upload_error e =
     (HasPrefix e ''failed to upload daily backup: ''
      \<or> HasPrefix e ''failed to check monthly backup: ''
      \<or> HasPrefix e ''failed to upload monthly backup: ''
      \<or> HasPrefix e ''failed to check yearly backup: ''
      \<or> HasPrefix e ''failed to upload yearly backup: '')"

text \<open>Two relations between the worlds before and after a piece of the run, used to follow
  one key, and the writes, through the steps. \<open>left_untouched key ob w w'\<close>: the object \<open>ob\<close>
  is still at \<open>key\<close>, and no write to \<open>key\<close> was requested in between.
  \<open>only_writes K d md w w'\<close>: every write requested in between is of the payload \<open>d\<close> with the
  metadata \<open>md\<close> to a key of \<open>K\<close>, and every object of \<open>w'\<close> was already in \<open>w\<close> or is such a
  write.\<close>

definition left_untouched :: "string \<Rightarrow> s3_object \<Rightarrow> world \<Rightarrow> world \<Rightarrow> bool" where
  "left_untouched key ob w w' =
     (map_of (objects w') key = Some ob \<and>
      (\<exists>cs. calls w' = calls w @ cs \<and> (\<forall>d md. PutObject_call key d md \<notin> set cs)))"

definition only_writes ::
  "string set \<Rightarrow> string \<Rightarrow> (string \<times> string) list \<Rightarrow> world \<Rightarrow> world \<Rightarrow> bool" where
  "only_writes K d md w w' =
     ((\<exists>cs. calls w' = calls w @ cs \<and>
            (\<forall>c \<in> set cs. is_PutObject c \<longrightarrow> (\<exists>k \<in> K. c = PutObject_call k d md)))
      \<and> (\<forall>k ob. map_of (objects w') k = Some ob \<longrightarrow>
             map_of (objects w) k = Some ob \<or> (k \<in> K \<and> Body ob = d \<and> Metadata ob = md)))"

section \<open>Example runs\<close>

text \<open>
  The examples run the handler in a bucket given by its objects, with no request sent and
  nothing logged so far. They need some digest function (every theorem below holds for any);
  they take the identity, under which different payloads have different digests. The clock
  stands at 02:00 UTC, the hour of the daily schedule.
\<close>

definition example_digest :: "string \<Rightarrow> string" where
  "example_digest data = data"

definition at_0200 :: "nat \<Rightarrow> nat \<Rightarrow> nat \<Rightarrow> gotime" where
  "at_0200 y m d = \<lparr>Year = y, Month = m, Day = d, Nanos = 7200000000000\<rparr>"

text \<open>The output of \<open>pg_dump\<close> for a one-table database, with the two comments that carry the
  time of the dump.\<close>

definition dump_of :: "string \<Rightarrow> string" where
  "dump_of started_on =
     ''-- Started on '' @ started_on @ [newline] @ ''CREATE TABLE t (id integer);'' @ [newline]
       @ ''-- Completed on '' @ started_on @ [newline]"

text \<open>An environment in which no request fails, and one in which exactly the \<open>n\<close>-th request
  of the run fails.\<close>

definition quiet_env :: "string \<Rightarrow> gotime \<Rightarrow> env" where
  "quiet_env dump now =
     \<lparr>sha256_Sum256 = example_digest, pg_dump = Inr dump, now_HandleRequest = now,
      now_cleanup = now, faults = (\<lambda>n. None), stamps = (\<lambda>n. 20310)\<rparr>"

definition failing_env :: "string \<Rightarrow> gotime \<Rightarrow> nat \<Rightarrow> string \<Rightarrow> env" where
  "failing_env dump now n err =
     \<lparr>sha256_Sum256 = example_digest, pg_dump = Inr dump, now_HandleRequest = now,
      now_cleanup = now, faults = (\<lambda>i. if i = n then Some err else None),
      stamps = (\<lambda>n. 20310)\<rparr>"

text \<open>The run of 10 August 2025 on a dump of that day, undisturbed or with one failing
  request.\<close>

definition env_0810 :: env where
  "env_0810 = quiet_env (dump_of ''2025-08-10'') (at_0200 2025 8 10)"

definition env_0810_failing :: "nat \<Rightarrow> string \<Rightarrow> env" where
  "env_0810_failing n err = failing_env (dump_of ''2025-08-10'') (at_0200 2025 8 10) n err"

text \<open>An object as \<open>uploadToS3WithChecksum\<close> leaves it, and one written before the handler
  recorded checksums.\<close>

definition stored :: "string \<Rightarrow> int \<Rightarrow> s3_object" where
  "stored data t =
     \<lparr>Body = data, Metadata = [(''sha256'', hex_EncodeToString (example_digest data))],
      LastModified = t\<rparr>"

definition legacy :: "string \<Rightarrow> int \<Rightarrow> s3_object" where
  "legacy data t = \<lparr>Body = data, Metadata = [], LastModified = t\<rparr>"

definition bucket :: "(string \<times> s3_object) list \<Rightarrow> world" where
  "bucket obs = \<lparr>objects = obs, calls = [], logs = []\<rparr>"

text \<open>The payload of the example dumps once normalised, and the daily objects of the first
  ten days of August 2025.\<close>

definition table_sql :: string where
  "table_sql = ''CREATE TABLE t (id integer);'' @ [newline]"

definition daily_of :: "string \<Rightarrow> string \<times> s3_object" where
  "daily_of day = (''daily/'' @ day @ ''-backup.sql'', stored (''-- '' @ day) 0)"

definition august_dailies :: "(string \<times> s3_object) list" where
  "august_dailies =
     map daily_of
       [''2025-08-01'', ''2025-08-02'', ''2025-08-03'', ''2025-08-04'', ''2025-08-05'',
        ''2025-08-06'', ''2025-08-07'', ''2025-08-08'', ''2025-08-09'', ''2025-08-10'']"

section \<open>Lemmas\<close>

subsection \<open>Facts about splitting and joining\<close>

lemma Split_not_Nil: "Split s c \<noteq> []"
  by (induction s) (auto split: list.splits)

lemma Split_no_sep: "l \<in> set (Split s c) \<Longrightarrow> c \<notin> set l"
proof (induction s arbitrary: l)
  case Nil
  then show ?case by simp
next
  case (Cons x xs)
  show ?case
  proof (cases "x = c")
    case True
    with Cons show ?thesis by auto
  next
    case False
    obtain p ps where ps: "Split xs c = p # ps"
      using Split_not_Nil [of xs c] by (cases "Split xs c") auto
    with False Cons.prems have "l = x # p \<or> l \<in> set ps" by auto
    then show ?thesis
    proof
      assume "l = x # p"
      moreover have "c \<notin> set p" using Cons.IH [of p] ps by simp
      ultimately show ?thesis using False by auto
    next
      assume "l \<in> set ps"
      then show ?thesis using Cons.IH [of l] ps by simp
    qed
  qed
qed

lemma Join_Cons: "ls \<noteq> [] \<Longrightarrow> Join (l # ls) c = l @ c # Join ls c"
  by (cases ls) auto

lemma Split_append_no_sep:
  "c \<notin> set l \<Longrightarrow> Split (l @ c # s) c = l # Split s c"
  by (induction l) auto

lemma Split_no_sep_single: "c \<notin> set l \<Longrightarrow> Split l c = [l]"
  by (induction l) auto

lemma Split_Join:
  "ls \<noteq> [] \<Longrightarrow> \<forall>l \<in> set ls. c \<notin> set l \<Longrightarrow> Split (Join ls c) c = ls"
proof (induction ls c rule: Join.induct)
  case (1 sep)
  then show ?case by simp
next
  case (2 l sep)
  then show ?case by (simp add: Split_no_sep_single)
next
  case (3 l l' ls sep)
  then show ?case by (simp add: Split_append_no_sep)
qed

lemma Join_Split: "Join (Split s c) c = s"
proof (induction s)
  case Nil
  then show ?case by simp
next
  case (Cons x xs)
  obtain p ps where ps: "Split xs c = p # ps"
    using Split_not_Nil [of xs c] by (cases "Split xs c") auto
  show ?case
  proof (cases "x = c")
    case True
    then show ?thesis using Cons ps by (simp add: Join_Cons)
  next
    case False
    then show ?thesis using Cons ps by (cases ps) auto
  qed
qed

lemma not_timestamp_comment_Nil: "\<not> is_timestamp_comment []"
  by (simp add: is_timestamp_comment_def HasPrefix_def)

lemma removeTimestampComments_Nil: "removeTimestampComments [] = []"
  by (simp add: removeTimestampComments_def not_timestamp_comment_Nil)

subsection \<open>What each operation does to the bucket, the requests and the log\<close>

lemma ListObjectsV2_frame:
  "ListObjectsV2 env p w = (r, w') \<Longrightarrow>
     calls w' = calls w @ [ListObjectsV2_call p] \<and> objects w' = objects w \<and> logs w' = logs w"
  by (auto simp: ListObjectsV2_def request_def split: option.splits)

lemma HeadObject_frame:
  "HeadObject env k w = (r, w') \<Longrightarrow>
     calls w' = calls w @ [HeadObject_call k] \<and> objects w' = objects w \<and> logs w' = logs w"
  by (auto simp: HeadObject_def request_def split: option.splits)

lemma GetObject_frame:
  "GetObject env k w = (r, w') \<Longrightarrow>
     calls w' = calls w @ [GetObject_call k] \<and> objects w' = objects w \<and> logs w' = logs w"
  by (auto simp: GetObject_def request_def split: option.splits)

lemma read_Body_frame:
  "read_Body env k b w = (r, w') \<Longrightarrow>
     calls w' = calls w @ [Body_read_call k] \<and> objects w' = objects w \<and> logs w' = logs w"
  by (auto simp: read_Body_def request_def split: option.splits)

lemma PutObject_frame:
  "PutObject env k d md w = (r, w') \<Longrightarrow>
     calls w' = calls w @ [PutObject_call k d md] \<and> logs w' = logs w \<and>
     (case r of
        Inl e \<Rightarrow> objects w' = objects w
      | Inr u \<Rightarrow> objects w' =
          AList.update k \<lparr>Body = d, Metadata = md, LastModified = stamps env (length (calls w))\<rparr>
            (objects w))"
  by (auto simp: PutObject_def request_def split: option.splits)

lemma DeleteObject_frame:
  "DeleteObject env k w = (r, w') \<Longrightarrow>
     calls w' = calls w @ [DeleteObject_call k] \<and> logs w' = logs w \<and>
     (case r of
        Inl e \<Rightarrow> objects w' = objects w
      | Inr u \<Rightarrow> objects w' = AList.delete k (objects w))"
  by (auto simp: DeleteObject_def request_def split: option.splits)

lemma findMostRecentBackup_frame:
  "findMostRecentBackup env p w = (r, w') \<Longrightarrow>
     calls w' = calls w @ [ListObjectsV2_call p] \<and> objects w' = objects w \<and> logs w' = logs w"
  by (auto simp: findMostRecentBackup_def split: prod.splits sum.splits option.splits if_splits
           dest: ListObjectsV2_frame)

lemma getObjectChecksum_frame:
  "getObjectChecksum env k w = (r, w') \<Longrightarrow>
     objects w' = objects w \<and> logs w' = logs w \<and>
     (calls w' = calls w @ [HeadObject_call k] \<or>
      calls w' = calls w @ [HeadObject_call k, GetObject_call k] \<or>
      calls w' = calls w @ [HeadObject_call k, GetObject_call k, Body_read_call k])"
  by (auto simp: getObjectChecksum_def split: prod.splits sum.splits option.splits
           dest!: HeadObject_frame GetObject_frame read_Body_frame)

lemma lines_differ_filter:
  "lines_differ_only_in_timestamps xs ys \<Longrightarrow>
   filter (\<lambda>line. \<not> is_timestamp_comment line) xs =
   filter (\<lambda>line. \<not> is_timestamp_comment line) ys"
  by (induction xs ys rule: lines_differ_only_in_timestamps.induct) auto

lemma log_Printf_frame [simp]:
  "calls (log_Printf f a w) = calls w" "objects (log_Printf f a w) = objects w"
  "logs (log_Printf f a w) = logs w @ [Printf f a]"
  by (simp_all add: log_Printf_def)

lemma log_Println_frame [simp]:
  "calls (log_Println m w) = calls w" "objects (log_Println m w) = objects w"
  "logs (log_Println m w) = logs w @ [Println m]"
  by (simp_all add: log_Println_def)

lemma new_calls_append: "calls w' = calls w @ cs \<Longrightarrow> new_calls w w' = cs"
  by (simp add: new_calls_def)

lemma dump_normalised:
  "removeTimestampComments (dump_of ''2025-08-09'') = table_sql"
  "removeTimestampComments (dump_of ''2025-08-10'') = table_sql"
  by (simp_all add: removeTimestampComments_def dump_of_def table_sql_def newline_def
        is_timestamp_comment_def HasPrefix_def)

lemma HeadObject_present:
  "map_of (objects w) key = Some ob \<Longrightarrow> faults env (length (calls w)) = None \<Longrightarrow>
   HeadObject env key w = (Inr (Metadata ob), w\<lparr>calls := calls w @ [HeadObject_call key]\<rparr>)"
  by (simp add: HeadObject_def request_def)

lemma HandleRequest_after_lookup:
  assumes "createBackup env = Inr backupData"
    and "findMostRecentBackup env ''daily/'' (started w0) = (Inr key, w1)"
    and "key \<noteq> []"
    and "getObjectChecksum env key w1 = (r, w2)"
  shows "HandleRequest env w0 =
           (if r = Inr (calculateChecksum env backupData)
            then (Inr (), log_Printf ''Backup content unchanged from %s, skipping all uploads'' [key] w2)
            else upload_and_cleanup env backupData (calculateChecksum env backupData) w2)"
  using assms
  by (cases r) (auto simp: HandleRequest_def contentChanged_check_def)

lemma uploadToS3WithChecksum_frame:
  "uploadToS3WithChecksum env k d c w = (r, w') \<Longrightarrow>
     calls w' = calls w @ [PutObject_call k d [(''sha256'', c)]] \<and> logs w' = logs w \<and>
     (case r of
        Inl e \<Rightarrow> objects w' = objects w
      | Inr u \<Rightarrow> objects w' =
          AList.update k \<lparr>Body = d, Metadata = [(''sha256'', c)],
                          LastModified = stamps env (length (calls w))\<rparr> (objects w))"
  unfolding uploadToS3WithChecksum_def by (rule PutObject_frame)

lemma objectExists_frame:
  "objectExists env k w = (r, w') \<Longrightarrow>
     calls w' = calls w @ [HeadObject_call k] \<and> objects w' = objects w \<and> logs w' = logs w"
  by (auto simp: objectExists_def split: prod.splits sum.splits if_splits dest: HeadObject_frame)

lemma contentChanged_check_frame:
  assumes "contentChanged_check env c w = (b, w')"
  shows "objects w' = objects w"
    and "\<exists>cs. calls w' = calls w @ ListObjectsV2_call ''daily/'' # cs \<and>
              (\<forall>x \<in> set cs. \<exists>k. x = HeadObject_call k \<or> x = GetObject_call k \<or> x = Body_read_call k)"
proof -
  obtain r wa where list: "findMostRecentBackup env ''daily/'' w = (r, wa)"
    by (cases "findMostRecentBackup env ''daily/'' w") auto
  note fa = findMostRecentBackup_frame [OF list]
  show "objects w' = objects w"
    using assms list fa
    by (auto simp: contentChanged_check_def split: sum.splits prod.splits if_splits
             dest!: getObjectChecksum_frame)
  show "\<exists>cs. calls w' = calls w @ ListObjectsV2_call ''daily/'' # cs \<and>
              (\<forall>x \<in> set cs. \<exists>k. x = HeadObject_call k \<or> x = GetObject_call k \<or> x = Body_read_call k)"
    using assms list fa
    by (auto simp: contentChanged_check_def split: sum.splits prod.splits if_splits
             dest!: getObjectChecksum_frame)
qed

lemma periodic_backup_calls:
  "periodic_backup env t T key d c w = (r, w') \<Longrightarrow>
     calls w' = calls w @ [HeadObject_call key] \<or>
     calls w' = calls w @ [HeadObject_call key, PutObject_call key d [(''sha256'', c)]]"
  by (auto simp: periodic_backup_def split: prod.splits sum.splits if_splits
           dest!: objectExists_frame uploadToS3WithChecksum_frame)

lemma periodic_backup_error:
  "periodic_backup env t T key d c w = (Inl e, w') \<Longrightarrow>
     \<exists>err. e = ''failed to check '' @ t @ '' backup: '' @ err \<or>
           e = ''failed to upload '' @ t @ '' backup: '' @ err"
  by (auto simp: periodic_backup_def split: prod.splits sum.splits if_splits)

lemma cleanup_step_cases:
  "cleanup_step env cutoff obj w =
     (if prunable cutoff (fst obj)
      then (case DeleteObject env (fst obj) w of
              (Inl err, w') \<Rightarrow>
                log_Printf ''Warning: failed to delete old backup %s: %v'' [fst obj, err] w'
            | (Inr u, w') \<Rightarrow> log_Printf ''Deleted old daily backup: %s'' [fst obj] w')
      else (case Split (fst obj) (CHR ''/'') of
              [dir, name] \<Rightarrow>
                (case time_Parse (TrimSuffix name ''-backup.sql'') of
                   Inl err \<Rightarrow>
                     log_Printf ''Warning: failed to parse date from key %s: %v'' [fst obj, err] w
                 | Inr backupDate \<Rightarrow> w)
            | _ \<Rightarrow> w))"
proof (cases "Split (fst obj) (CHR ''/'')")
  case Nil
  then show ?thesis by (simp add: cleanup_step_def prunable_def)
next
  case (Cons a as)
  note outer = Cons
  show ?thesis
  proof (cases as)
    case Nil
    with outer show ?thesis by (simp add: cleanup_step_def prunable_def)
  next
    case (Cons b bs)
    with outer show ?thesis
      by (cases bs) (auto simp: cleanup_step_def prunable_def split: sum.splits)
  qed
qed

lemma cleanup_step_calls:
  "calls (cleanup_step env cutoff obj w) =
     calls w @ (if prunable cutoff (fst obj) then [DeleteObject_call (fst obj)] else [])"
  by (auto simp: cleanup_step_cases split: prod.splits sum.splits list.splits
           dest!: DeleteObject_frame)

lemma cleanup_loop_calls:
  "calls (cleanup_loop env cutoff contents w) =
     calls w @ map DeleteObject_call (filter (prunable cutoff) (map fst contents))"
  by (induction contents arbitrary: w) (simp_all add: cleanup_step_calls)

lemma cleanupOldDailyBackups_calls:
  "\<exists>ks. calls (snd (cleanupOldDailyBackups env w)) =
          calls w @ ListObjectsV2_call ''daily/'' # map DeleteObject_call ks"
proof (cases "ListObjectsV2 env ''daily/'' w")
  case (Pair r w')
  note fr = ListObjectsV2_frame [OF Pair]
  show ?thesis
  proof (cases r)
    case (Inl e)
    with Pair fr have "calls (snd (cleanupOldDailyBackups env w)) =
          calls w @ ListObjectsV2_call ''daily/'' # map DeleteObject_call []"
      by (simp add: cleanupOldDailyBackups_def)
    then show ?thesis by blast
  next
    case (Inr contents)
    with Pair fr show ?thesis
      by (auto simp: cleanupOldDailyBackups_def cleanup_loop_calls)
  qed
qed

lemma cleanup_and_finish_calls:
  "\<exists>ks. calls (cleanup_and_finish env w) =
          calls w @ ListObjectsV2_call ''daily/'' # map DeleteObject_call ks"
  using cleanupOldDailyBackups_calls [of env w]
  by (auto simp: cleanup_and_finish_def split: prod.splits sum.splits)

lemma count_list_Delete [simp]:
  "count_list (map DeleteObject_call ks) (ListObjectsV2_call p) = 0"
  by (induction ks) auto

lemma periodic_backup_error_monthly:
  "periodic_backup env ''monthly'' T key d c w = (Inl e, w') \<Longrightarrow> is_upload_error e"
  by (auto simp: periodic_backup_def is_upload_error_def HasPrefix_def
           split: prod.splits sum.splits if_splits)

lemma periodic_backup_error_yearly:
  "periodic_backup env ''yearly'' T key d c w = (Inl e, w') \<Longrightarrow> is_upload_error e"
  by (auto simp: periodic_backup_def is_upload_error_def HasPrefix_def
           split: prod.splits sum.splits if_splits)

lemma daily_error: "is_upload_error (''failed to upload daily backup: '' @ err)"
  by (simp add: is_upload_error_def HasPrefix_def)

lemma upload_and_cleanup_outcome:
  assumes "upload_and_cleanup env d c w = (r, w')"
  shows "\<exists>cs. calls w' = calls w @ cs \<and>
           (case r of
              Inr u \<Rightarrow> count_list cs (ListObjectsV2_call ''daily/'') = 1 \<and>
                       (\<exists>w4. w' = cleanup_and_finish env w4)
            | Inl e \<Rightarrow> count_list cs (ListObjectsV2_call ''daily/'') = 0 \<and>
                       is_upload_error e)"
proof -
  let ?L = "ListObjectsV2_call ''daily/''"
  obtain r1 w1 where up: "uploadToS3WithChecksum env (dailyKey env) d c w = (r1, w1)"
    by (cases "uploadToS3WithChecksum env (dailyKey env) d c w") auto
  from uploadToS3WithChecksum_frame [OF up]
  have c1: "calls w1 = calls w @ [PutObject_call (dailyKey env) d [(''sha256'', c)]]" by simp
  show ?thesis
  proof (cases r1)
    case (Inl err)
    with up assms have "r = Inl (''failed to upload daily backup: '' @ err)" "w' = w1"
      by (simp_all add: upload_and_cleanup_def)
    with c1 daily_error show ?thesis by simp
  next
    case (Inr u)
    let ?wd = "log_Printf ''Daily backup uploaded: %s'' [dailyKey env] w1"
    obtain rm wm where pm:
      "periodic_backup env ''monthly'' ''Monthly'' (monthlyKey env) d c ?wd = (rm, wm)"
      by (cases "periodic_backup env ''monthly'' ''Monthly'' (monthlyKey env) d c ?wd") auto
    from periodic_backup_calls [OF pm] c1
    obtain cm where cm: "calls wm = calls w @ cm" "count_list cm ?L = 0"
      by auto
    show ?thesis
    proof (cases rm)
      case (Inl e)
      with up Inr pm assms have "r = Inl e" "w' = wm"
        by (simp_all add: upload_and_cleanup_def)
      moreover from pm Inl have "is_upload_error e"
        by (auto dest: periodic_backup_error_monthly)
      ultimately show ?thesis using cm by simp
    next
      case rmOK: (Inr um)
      obtain ry wy where py:
        "periodic_backup env ''yearly'' ''Yearly'' (yearlyKey env) d c wm = (ry, wy)"
        by (cases "periodic_backup env ''yearly'' ''Yearly'' (yearlyKey env) d c wm") auto
      from periodic_backup_calls [OF py] cm
      obtain cy where cy: "calls wy = calls w @ cy" "count_list cy ?L = 0"
        by auto
      show ?thesis
      proof (cases ry)
        case (Inl e)
        with up Inr pm rmOK py assms have "r = Inl e" "w' = wy"
          by (simp_all add: upload_and_cleanup_def)
        moreover from py Inl have "is_upload_error e"
          by (auto dest: periodic_backup_error_yearly)
        ultimately show ?thesis using cy by simp
      next
        case ryOK: (Inr uy)
        with up Inr pm rmOK py assms have res: "r = Inr ()" "w' = cleanup_and_finish env wy"
          by (simp_all add: upload_and_cleanup_def)
        from cleanup_and_finish_calls [of env wy] cy
        obtain ks where "calls w' = calls w @ (cy @ ?L # map DeleteObject_call ks)"
          using res by auto
        moreover have "count_list (cy @ ?L # map DeleteObject_call ks) ?L = 1"
          using cy by simp
        ultimately show ?thesis using res by (intro exI [of _ "cy @ ?L # map DeleteObject_call ks"]) auto
      qed
    qed
  qed
qed

lemma periodic_backup_check_fails:
  "objectExists env key w = (Inl err, w3) \<Longrightarrow>
   periodic_backup env t T key d c w = (Inl (''failed to check '' @ t @ '' backup: '' @ err), w3)"
  by (simp add: periodic_backup_def)

lemma periodic_backup_upload_fails:
  "objectExists env key w = (Inr False, wm) \<Longrightarrow>
   uploadToS3WithChecksum env key d c wm = (Inl err, w3) \<Longrightarrow>
   periodic_backup env t T key d c w = (Inl (''failed to upload '' @ t @ '' backup: '' @ err), w3)"
  by (simp add: periodic_backup_def)

lemma upload_and_cleanup_monthly_fails:
  "uploadToS3WithChecksum env (dailyKey env) d c w1 = (Inr (), w2) \<Longrightarrow>
   periodic_backup env ''monthly'' ''Monthly'' (monthlyKey env) d c
     (log_Printf ''Daily backup uploaded: %s'' [dailyKey env] w2) = (Inl e, w3) \<Longrightarrow>
   upload_and_cleanup env d c w1 = (Inl e, w3)"
  by (simp add: upload_and_cleanup_def)

lemma upload_and_cleanup_yearly_fails:
  "uploadToS3WithChecksum env (dailyKey env) d c w1 = (Inr (), w2) \<Longrightarrow>
   periodic_backup env ''monthly'' ''Monthly'' (monthlyKey env) d c
     (log_Printf ''Daily backup uploaded: %s'' [dailyKey env] w2) = (Inr (), wm) \<Longrightarrow>
   periodic_backup env ''yearly'' ''Yearly'' (yearlyKey env) d c wm = (Inl e, w3) \<Longrightarrow>
   upload_and_cleanup env d c w1 = (Inl e, w3)"
  by (simp add: upload_and_cleanup_def)

lemma time_Parse_midnight: "time_Parse v = Inr d \<Longrightarrow> Nanos d = 0"
  by (auto simp: time_Parse_def Let_def split: if_splits option.splits prod.splits)

lemma Before_cutoff_iff:
  assumes "Nanos d = 0" and "int (Nanos now) < nsPerDay"
  shows "Before (instant d) (AddDate_days now (- 7)) \<longleftrightarrow>
         absDay d + 7 < absDay now \<or> (absDay d + 7 = absDay now \<and> 0 < Nanos now)"
proof -
  have pos: "0 < nsPerDay" by (simp add: nsPerDay_def)
  have eq: "Before (instant d) (AddDate_days now (- 7)) \<longleftrightarrow>
        (absDay d + 7) * nsPerDay < absDay now * nsPerDay + int (Nanos now)"
    using assms(1) by (simp add: Before_def instant_def AddDate_days_def algebra_simps)
  show ?thesis
  proof (cases "absDay d + 7 < absDay now")
    case True
    then have "absDay d + 7 + 1 \<le> absDay now" by simp
    then have "(absDay d + 7 + 1) * nsPerDay \<le> absDay now * nsPerDay"
      using pos by (simp only: mult_le_cancel_right) simp
    then have "(absDay d + 7) * nsPerDay < absDay now * nsPerDay + int (Nanos now)"
      using pos by (simp add: algebra_simps)
    with True eq show ?thesis by simp
  next
    case False
    show ?thesis
    proof (cases "absDay d + 7 = absDay now")
      case True
      with eq show ?thesis by simp
    next
      case neq: False
      with False have "absDay now + 1 \<le> absDay d + 7" by simp
      then have "(absDay now + 1) * nsPerDay \<le> (absDay d + 7) * nsPerDay"
        using pos by (simp only: mult_le_cancel_right) simp
      then have "\<not> (absDay d + 7) * nsPerDay < absDay now * nsPerDay + int (Nanos now)"
        using assms(2) by (simp add: algebra_simps)
      with False neq eq show ?thesis by simp
    qed
  qed
qed

lemma prunable_iff:
  assumes "int (Nanos now) < nsPerDay"
  shows "prunable (AddDate_days now (- 7)) key \<longleftrightarrow>
     (\<exists>dir name d. Split key (CHR ''/'') = [dir, name] \<and>
        time_Parse (TrimSuffix name ''-backup.sql'') = Inr d \<and>
        (absDay d + 7 < absDay now \<or> (absDay d + 7 = absDay now \<and> 0 < Nanos now)))"
proof (cases "\<exists>dir name. Split key (CHR ''/'') = [dir, name]")
  case False
  then show ?thesis
    by (auto simp: prunable_def split: list.splits)
next
  case True
  then obtain dir name where sp: "Split key (CHR ''/'') = [dir, name]" by blast
  show ?thesis
  proof (cases "time_Parse (TrimSuffix name ''-backup.sql'')")
    case (Inl e)
    with sp show ?thesis by (simp add: prunable_def)
  next
    case (Inr d)
    from time_Parse_midnight [OF Inr] assms
    have "Before (instant d) (AddDate_days now (- 7)) \<longleftrightarrow>
         absDay d + 7 < absDay now \<or> (absDay d + 7 = absDay now \<and> 0 < Nanos now)"
      by (rule Before_cutoff_iff)
    with sp Inr show ?thesis by (simp add: prunable_def)
  qed
qed

lemma cleanup_loop_append:
  "cleanup_loop env cutoff (xs @ ys) w = cleanup_loop env cutoff ys (cleanup_loop env cutoff xs w)"
  by (induction xs arbitrary: w) simp_all

lemma cleanup_step_objects_cases:
  "objects (cleanup_step env cutoff obj w) = objects w \<or>
   objects (cleanup_step env cutoff obj w) = AList.delete (fst obj) (objects w)"
  by (auto simp: cleanup_step_cases split: prod.splits sum.splits list.splits
           dest!: DeleteObject_frame)

lemma cleanup_step_objects:
  "map_of (objects (cleanup_step env cutoff obj w)) k = map_of (objects w) k \<or>
   (k = fst obj \<and> map_of (objects (cleanup_step env cutoff obj w)) k = None)"
  using cleanup_step_objects_cases [of env cutoff obj w]
  by (cases "k = fst obj") (auto simp: delete_conv')

lemma cleanup_loop_objects:
  "map_of (objects (cleanup_loop env cutoff contents w)) k = map_of (objects w) k \<or>
   (k \<in> fst ` set contents \<and> map_of (objects (cleanup_loop env cutoff contents w)) k = None)"
proof (induction contents arbitrary: w)
  case Nil
  then show ?case by simp
next
  case (Cons obj rest)
  from Cons [of "cleanup_step env cutoff obj w"] cleanup_step_objects [of env cutoff obj w k]
  show ?case by auto
qed

lemma cleanup_step_logs: "\<exists>ls. logs (cleanup_step env cutoff obj w) = logs w @ ls"
  by (auto simp: cleanup_step_cases split: prod.splits sum.splits list.splits
           dest!: DeleteObject_frame)

lemma cleanup_loop_logs: "\<exists>ls. logs (cleanup_loop env cutoff contents w) = logs w @ ls"
proof (induction contents arbitrary: w)
  case Nil
  then show ?case by simp
next
  case (Cons obj rest)
  from Cons [of "cleanup_step env cutoff obj w"] cleanup_step_logs [of env cutoff obj w]
  show ?case by auto
qed

lemma cleanup_loop_keeps_log:
  "l \<in> set (logs w) \<Longrightarrow> l \<in> set (logs (cleanup_loop env cutoff contents w))"
  using cleanup_loop_logs [of env cutoff contents w] by auto

lemma cleanup_loop_keeps_absent:
  "map_of (objects w) k = None \<Longrightarrow> map_of (objects (cleanup_loop env cutoff contents w)) k = None"
  using cleanup_loop_objects [of env cutoff contents w k] by auto

lemma cleanup_step_unparsable:
  "Split (fst obj) (CHR ''/'') = [dir, name] \<Longrightarrow>
   time_Parse (TrimSuffix name ''-backup.sql'') = Inl err \<Longrightarrow>
   cleanup_step env cutoff obj w =
     log_Printf ''Warning: failed to parse date from key %s: %v'' [fst obj, err] w"
  by (simp add: cleanup_step_cases prunable_def)

lemma cleanup_step_prunable:
  "prunable cutoff (fst obj) \<Longrightarrow>
   (case faults env (length (calls w)) of
      Some err \<Rightarrow>
        Printf ''Warning: failed to delete old backup %s: %v'' [fst obj, err]
          \<in> set (logs (cleanup_step env cutoff obj w))
    | None \<Rightarrow> map_of (objects (cleanup_step env cutoff obj w)) (fst obj) = None)"
  by (auto simp: cleanup_step_cases DeleteObject_def request_def delete_conv' split: option.splits)

lemma cleanup_step_no_fault:
  "prunable cutoff (fst obj) \<Longrightarrow> faults env (length (calls w)) = None \<Longrightarrow>
   objects (cleanup_step env cutoff obj w) = AList.delete (fst obj) (objects w)"
  by (simp add: cleanup_step_cases DeleteObject_def request_def)

lemma cleanup_step_not_prunable:
  "\<not> prunable cutoff (fst obj) \<Longrightarrow> objects (cleanup_step env cutoff obj w) = objects w"
  by (auto simp: cleanup_step_cases split: list.splits sum.splits)

lemma cleanup_loop_no_faults:
  "(\<forall>i < length (filter (prunable cutoff) (map fst contents)).
       faults env (length (calls w) + i) = None) \<Longrightarrow>
   objects (cleanup_loop env cutoff contents w) =
     filter (\<lambda>(k, ob). k \<notin> set (filter (prunable cutoff) (map fst contents))) (objects w)"
proof (induction contents arbitrary: w)
  case Nil
  then show ?case by simp
next
  case (Cons obj rest)
  let ?w = "cleanup_step env cutoff obj w"
  let ?ks = "filter (prunable cutoff) (map fst rest)"
  show ?case
  proof (cases "prunable cutoff (fst obj)")
    case True
    from Cons.prems True have f0: "faults env (length (calls w)) = None"
      by (auto dest: spec [of _ 0])
    have len: "length (calls ?w) = Suc (length (calls w))"
      using True by (simp add: cleanup_step_calls)
    have "\<forall>i < length ?ks. faults env (length (calls ?w) + i) = None"
    proof (intro allI impI)
      fix i assume "i < length ?ks"
      with Cons.prems True have "faults env (length (calls w) + Suc i) = None"
        by (auto dest: spec [of _ "Suc i"])
      then show "faults env (length (calls ?w) + i) = None" by (simp add: len)
    qed
    from Cons.IH [OF this] cleanup_step_no_fault [OF True f0] True
    show ?thesis by (auto simp: AList.delete_eq intro: filter_cong)
  next
    case False
    have "length (calls ?w) = length (calls w)"
      using False by (simp add: cleanup_step_calls)
    with Cons.prems False
    have "\<forall>i < length ?ks. faults env (length (calls ?w) + i) = None" by simp
    from Cons.IH [OF this] cleanup_step_not_prunable [OF False] False
    show ?thesis by simp
  qed
qed

lemma cleanupOldDailyBackups_listed:
  "ListObjectsV2 env ''daily/'' w = (Inr contents, w1) \<Longrightarrow>
   cleanupOldDailyBackups env w =
     (Inr (), cleanup_loop env (AddDate_days (now_cleanup env) (- 7)) contents w1)"
  by (simp add: cleanupOldDailyBackups_def)

lemma cleanup_loop_position:
  assumes "contents = pre @ obj # post"
  shows "cleanup_loop env cutoff contents w =
           cleanup_loop env cutoff post
             (cleanup_step env cutoff obj (cleanup_loop env cutoff pre w))"
  using assms by (simp add: cleanup_loop_append)

lemma left_untouched_trans:
  "left_untouched k ob w w1 \<Longrightarrow> left_untouched k ob w1 w2 \<Longrightarrow> left_untouched k ob w w2"
  by (auto simp: left_untouched_def)

lemma left_untouched_log:
  "left_untouched k ob w w1 \<Longrightarrow> left_untouched k ob w (log_Printf f a w1)"
  "left_untouched k ob w w1 \<Longrightarrow> left_untouched k ob w (log_Println m w1)"
  by (auto simp: left_untouched_def)

lemma left_untouched_refl:
  "map_of (objects w) k = Some ob \<Longrightarrow> left_untouched k ob w w"
  by (simp add: left_untouched_def)

lemma left_untouched_read:
  assumes "map_of (objects w) k = Some ob" and "objects w' = objects w"
    and "calls w' = calls w @ cs" and "\<forall>c \<in> set cs. \<not> is_PutObject c"
  shows "left_untouched k ob w w'"
  using assms by (auto simp: left_untouched_def)

lemma contentChanged_check_untouched:
  assumes "contentChanged_check env c w = (b, w')" and "map_of (objects w) k = Some ob"
  shows "left_untouched k ob w w'"
proof -
  from contentChanged_check_frame [OF assms(1)]
  obtain cs where "objects w' = objects w" "calls w' = calls w @ ListObjectsV2_call ''daily/'' # cs"
    "\<forall>x \<in> set cs. \<exists>k. x = HeadObject_call k \<or> x = GetObject_call k \<or> x = Body_read_call k"
    by blast
  with assms(2) show ?thesis
    by (intro left_untouched_read [where cs = "ListObjectsV2_call ''daily/'' # cs"]) auto
qed

lemma upload_other_key_untouched:
  assumes "uploadToS3WithChecksum env key d c w = (r, w')" and "map_of (objects w) k = Some ob"
    and "key \<noteq> k"
  shows "left_untouched k ob w w'"
  using uploadToS3WithChecksum_frame [OF assms(1)] assms(2,3)
  by (cases r) (auto simp: left_untouched_def update_conv')

lemma objectExists_present:
  assumes "objectExists env k w = (r, w')" and "map_of (objects w) k = Some ob"
    and "faults_distinguish_NotFound env"
  shows "r \<noteq> Inr False"
  using assms
  by (auto simp: objectExists_def HeadObject_def request_def faults_distinguish_NotFound_def
           split: option.splits if_splits)

lemma periodic_backup_untouched:
  assumes run: "periodic_backup env t T key d c w = (r, w')"
    and ob: "map_of (objects w) k = Some ob"
    and honest: "faults_distinguish_NotFound env"
  shows "left_untouched k ob w w'"
proof -
  obtain re w1 where ex: "objectExists env key w = (re, w1)"
    by (cases "objectExists env key w") auto
  from objectExists_frame [OF ex]
  have f1: "calls w1 = calls w @ [HeadObject_call key]" "objects w1 = objects w" by simp_all
  with ob have u1: "left_untouched k ob w w1"
    by (intro left_untouched_read [where cs = "[HeadObject_call key]"]) auto
  show ?thesis
  proof (cases "re = Inr False")
    case False
    with run ex have "w' = w1"
      by (cases re) (auto simp: periodic_backup_def)
    with u1 show ?thesis by simp
  next
    case True
    with objectExists_present [OF ex _ honest] ob have neq: "key \<noteq> k" by auto
    obtain ru w2 where up: "uploadToS3WithChecksum env key d c w1 = (ru, w2)"
      by (cases "uploadToS3WithChecksum env key d c w1") auto
    from ob f1 have "map_of (objects w1) k = Some ob" by simp
    from upload_other_key_untouched [OF up this neq]
    have u2: "left_untouched k ob w1 w2" .
    from run ex True up have "w' = w2 \<or> w' = log_Printf (T @ '' backup created: %s'') [key] w2"
      by (cases ru) (auto simp: periodic_backup_def)
    with left_untouched_trans [OF u1 u2] show ?thesis
      by (auto intro: left_untouched_log)
  qed
qed

lemma ListObjectsV2_prefix:
  "ListObjectsV2 env p w = (Inr contents, w') \<Longrightarrow> k \<in> fst ` set contents \<Longrightarrow> prefix p k"
  by (auto simp: ListObjectsV2_def request_def split: option.splits dest!: in_set_takeD)

lemma cleanup_and_finish_untouched:
  assumes ob: "map_of (objects w) k = Some ob" and k: "\<not> prefix ''daily/'' k"
  shows "left_untouched k ob w (cleanup_and_finish env w)"
proof -
  obtain r w1 where l: "ListObjectsV2 env ''daily/'' w = (r, w1)"
    by (cases "ListObjectsV2 env ''daily/'' w") auto
  note f = ListObjectsV2_frame [OF l]
  from cleanup_and_finish_calls [of env w]
  obtain ks where c: "calls (cleanup_and_finish env w) =
      calls w @ ListObjectsV2_call ''daily/'' # map DeleteObject_call ks" by blast
  have "map_of (objects (cleanup_and_finish env w)) k = Some ob"
  proof (cases r)
    case (Inl e)
    with l f ob show ?thesis
      by (simp add: cleanup_and_finish_def cleanupOldDailyBackups_def)
  next
    case (Inr contents)
    with l k have "k \<notin> fst ` set contents"
      by (auto dest: ListObjectsV2_prefix)
    with cleanup_loop_objects [of env "AddDate_days (now_cleanup env) (- 7)" contents w1 k]
    have "map_of (objects (cleanup_loop env (AddDate_days (now_cleanup env) (- 7)) contents w1)) k
            = map_of (objects w1) k" by auto
    with l Inr f ob show ?thesis
      by (simp add: cleanup_and_finish_def cleanupOldDailyBackups_def)
  qed
  with c show ?thesis
    by (auto simp: left_untouched_def)
qed

lemma upload_and_cleanup_untouched:
  assumes ob: "map_of (objects w) k = Some ob"
    and k: "prefix ''monthly/'' k \<or> prefix ''yearly/'' k"
    and honest: "faults_distinguish_NotFound env"
  shows "left_untouched k ob w (snd (upload_and_cleanup env d c w))"
proof -
  have nd: "dailyKey env \<noteq> k" "\<not> prefix ''daily/'' k"
    using k by (auto simp: prefix_def)
  obtain r1 w1 where up: "uploadToS3WithChecksum env (dailyKey env) d c w = (r1, w1)"
    by (cases "uploadToS3WithChecksum env (dailyKey env) d c w") auto
  from upload_other_key_untouched [OF up ob nd(1)] have u1: "left_untouched k ob w w1" .
  show ?thesis
  proof (cases r1)
    case (Inl e)
    with up u1 show ?thesis by (simp add: upload_and_cleanup_def)
  next
    case (Inr u)
    let ?wd = "log_Printf ''Daily backup uploaded: %s'' [dailyKey env] w1"
    have ud: "left_untouched k ob w ?wd" using u1 by (rule left_untouched_log)
    then have obd: "map_of (objects ?wd) k = Some ob" by (simp add: left_untouched_def)
    obtain rm wm where pm:
      "periodic_backup env ''monthly'' ''Monthly'' (monthlyKey env) d c ?wd = (rm, wm)"
      by (cases "periodic_backup env ''monthly'' ''Monthly'' (monthlyKey env) d c ?wd") auto
    from left_untouched_trans [OF ud periodic_backup_untouched [OF pm obd honest]]
    have um: "left_untouched k ob w wm" .
    then have obm: "map_of (objects wm) k = Some ob" by (simp add: left_untouched_def)
    show ?thesis
    proof (cases rm)
      case (Inl e)
      with up Inr pm um show ?thesis by (simp add: upload_and_cleanup_def)
    next
      case rmOK: (Inr um')
      obtain ry wy where py:
        "periodic_backup env ''yearly'' ''Yearly'' (yearlyKey env) d c wm = (ry, wy)"
        by (cases "periodic_backup env ''yearly'' ''Yearly'' (yearlyKey env) d c wm") auto
      from left_untouched_trans [OF um periodic_backup_untouched [OF py obm honest]]
      have uy: "left_untouched k ob w wy" .
      then have oby: "map_of (objects wy) k = Some ob" by (simp add: left_untouched_def)
      show ?thesis
      proof (cases ry)
        case (Inl e)
        with up Inr pm rmOK py uy show ?thesis by (simp add: upload_and_cleanup_def)
      next
        case (Inr uy')
        from left_untouched_trans [OF uy cleanup_and_finish_untouched [OF oby nd(2)]]
        have "left_untouched k ob w (cleanup_and_finish env wy)" .
        with up \<open>r1 = Inr u\<close> pm rmOK py Inr show ?thesis by (simp add: upload_and_cleanup_def)
      qed
    qed
  qed
qed

lemma HandleRequest_untouched:
  assumes ob: "map_of (objects w) k = Some ob"
    and k: "prefix ''monthly/'' k \<or> prefix ''yearly/'' k"
    and honest: "faults_distinguish_NotFound env"
  shows "left_untouched k ob w (snd (HandleRequest env w))"
proof (cases "createBackup env")
  case (Inl e)
  with ob show ?thesis
    by (simp add: HandleRequest_def left_untouched_def)
next
  case (Inr d)
  let ?c = "calculateChecksum env d"
  obtain b w1 where ch: "contentChanged_check env ?c (started w) = (b, w1)"
    by (cases "contentChanged_check env ?c (started w)") auto
  from ob have "left_untouched k ob w (started w)"
    by (simp add: left_untouched_def)
  moreover from ob have "left_untouched k ob (started w) w1"
    by (intro contentChanged_check_untouched [OF ch]) simp
  ultimately have u1: "left_untouched k ob w w1" by (rule left_untouched_trans)
  then have ob1: "map_of (objects w1) k = Some ob" by (simp add: left_untouched_def)
  show ?thesis
  proof (cases b)
    case False
    with Inr ch u1 show ?thesis by (simp add: HandleRequest_def)
  next
    case True
    from left_untouched_trans [OF u1 upload_and_cleanup_untouched [OF ob1 k honest]]
    have "left_untouched k ob w (snd (upload_and_cleanup env d ?c w1))" .
    with Inr ch True show ?thesis by (simp add: HandleRequest_def)
  qed
qed

lemma runs_untouched:
  assumes "\<forall>env \<in> set envs. faults_distinguish_NotFound env"
    and "map_of (objects w) k = Some ob"
    and "prefix ''monthly/'' k \<or> prefix ''yearly/'' k"
  shows "left_untouched k ob w (runs envs w)"
  using assms
proof (induction envs arbitrary: w)
  case Nil
  then show ?case by (simp add: left_untouched_refl)
next
  case (Cons env envs)
  from Cons.prems have u: "left_untouched k ob w (snd (HandleRequest env w))"
    by (intro HandleRequest_untouched) simp_all
  then have "map_of (objects (snd (HandleRequest env w))) k = Some ob"
    by (simp add: left_untouched_def)
  with Cons have "left_untouched k ob (snd (HandleRequest env w)) (runs envs (snd (HandleRequest env w)))"
    by simp
  with u show ?case by (auto intro: left_untouched_trans)
qed

lemma only_writes_refl: "only_writes K d md w w"
  by (simp add: only_writes_def)

lemma only_writes_trans:
  assumes "only_writes K d md w w1" and "only_writes K d md w1 w2"
  shows "only_writes K d md w w2"
proof -
  from assms obtain cs1 cs2 where
    c1: "calls w1 = calls w @ cs1" "\<forall>c \<in> set cs1. is_PutObject c \<longrightarrow> (\<exists>k \<in> K. c = PutObject_call k d md)"
    and c2: "calls w2 = calls w1 @ cs2" "\<forall>c \<in> set cs2. is_PutObject c \<longrightarrow> (\<exists>k \<in> K. c = PutObject_call k d md)"
    by (auto simp: only_writes_def)
  then have "calls w2 = calls w @ (cs1 @ cs2)"
    "\<forall>c \<in> set (cs1 @ cs2). is_PutObject c \<longrightarrow> (\<exists>k \<in> K. c = PutObject_call k d md)"
    by auto
  then have calls: "\<exists>cs. calls w2 = calls w @ cs \<and>
            (\<forall>c \<in> set cs. is_PutObject c \<longrightarrow> (\<exists>k \<in> K. c = PutObject_call k d md))"
    by blast
  have "map_of (objects w) k = Some ob \<or> (k \<in> K \<and> Body ob = d \<and> Metadata ob = md)"
    if "map_of (objects w2) k = Some ob" for k ob
    using that assms by (auto simp: only_writes_def)
  with calls show ?thesis by (simp add: only_writes_def)
qed

lemma only_writes_log:
  "only_writes K d md w w1 \<Longrightarrow> only_writes K d md w (log_Printf f a w1)"
  "only_writes K d md w w1 \<Longrightarrow> only_writes K d md w (log_Println m w1)"
  by (simp_all add: only_writes_def)

lemma only_writes_read:
  assumes "objects w' = objects w" and "calls w' = calls w @ cs"
    and "\<forall>c \<in> set cs. \<not> is_PutObject c"
  shows "only_writes K d md w w'"
  using assms by (auto simp: only_writes_def)

lemma only_writes_upload:
  assumes "uploadToS3WithChecksum env key d c w = (r, w')" and "key \<in> K"
  shows "only_writes K d [(''sha256'', c)] w w'"
proof -
  note f = uploadToS3WithChecksum_frame [OF assms(1)]
  have "map_of (objects w) k = Some ob \<or>
          (k \<in> K \<and> Body ob = d \<and> Metadata ob = [(''sha256'', c)])"
    if "map_of (objects w') k = Some ob" for k ob
    using that f assms(2) by (cases r) (auto simp: update_conv' split: if_splits)
  moreover have "\<exists>cs. calls w' = calls w @ cs \<and>
            (\<forall>x \<in> set cs. is_PutObject x \<longrightarrow> (\<exists>k \<in> K. x = PutObject_call k d [(''sha256'', c)]))"
    using f assms(2) by auto
  ultimately show ?thesis by (simp add: only_writes_def)
qed

lemma only_writes_periodic:
  assumes "periodic_backup env t T key d c w = (r, w')" and "key \<in> K"
  shows "only_writes K d [(''sha256'', c)] w w'"
proof -
  obtain re w1 where ex: "objectExists env key w = (re, w1)"
    by (cases "objectExists env key w") auto
  from objectExists_frame [OF ex]
  have u1: "only_writes K d [(''sha256'', c)] w w1"
    by (intro only_writes_read [where cs = "[HeadObject_call key]"]) auto
  show ?thesis
  proof (cases "re = Inr False")
    case False
    with assms(1) ex have "w' = w1"
      by (cases re) (auto simp: periodic_backup_def)
    with u1 show ?thesis by simp
  next
    case True
    obtain ru w2 where up: "uploadToS3WithChecksum env key d c w1 = (ru, w2)"
      by (cases "uploadToS3WithChecksum env key d c w1") auto
    from assms(1) ex True up
    have "w' = w2 \<or> w' = log_Printf (T @ '' backup created: %s'') [key] w2"
      by (cases ru) (auto simp: periodic_backup_def)
    with only_writes_trans [OF u1 only_writes_upload [OF up assms(2)]] show ?thesis
      by (auto intro: only_writes_log)
  qed
qed

lemma only_writes_cleanup: "only_writes K d md w (cleanup_and_finish env w)"
proof -
  from cleanup_and_finish_calls [of env w]
  obtain ks where c: "calls (cleanup_and_finish env w) =
      calls w @ ListObjectsV2_call ''daily/'' # map DeleteObject_call ks" by blast
  then have calls: "\<exists>cs. calls (cleanup_and_finish env w) = calls w @ cs \<and>
            (\<forall>c \<in> set cs. is_PutObject c \<longrightarrow> (\<exists>k \<in> K. c = PutObject_call k d md))"
    by auto
  obtain r w1 where l: "ListObjectsV2 env ''daily/'' w = (r, w1)"
    by (cases "ListObjectsV2 env ''daily/'' w") auto
  note f = ListObjectsV2_frame [OF l]
  have "map_of (objects w) k = Some ob"
    if "map_of (objects (cleanup_and_finish env w)) k = Some ob" for k ob
  proof (cases r)
    case (Inl e)
    with l f that show ?thesis
      by (simp add: cleanup_and_finish_def cleanupOldDailyBackups_def)
  next
    case (Inr contents)
    with l f that
    have "map_of (objects (cleanup_loop env (AddDate_days (now_cleanup env) (- 7)) contents w1)) k
            = Some ob"
      by (simp add: cleanup_and_finish_def cleanupOldDailyBackups_def)
    with cleanup_loop_objects [of env "AddDate_days (now_cleanup env) (- 7)" contents w1 k] f
    show ?thesis by auto
  qed
  with calls show ?thesis by (simp add: only_writes_def)
qed

lemma only_writes_upload_and_cleanup:
  "only_writes {dailyKey env, monthlyKey env, yearlyKey env} d [(''sha256'', c)] w
     (snd (upload_and_cleanup env d c w))"
proof -
  let ?K = "{dailyKey env, monthlyKey env, yearlyKey env}"
  let ?md = "[(''sha256'', c)]"
  obtain r1 w1 where up: "uploadToS3WithChecksum env (dailyKey env) d c w = (r1, w1)"
    by (cases "uploadToS3WithChecksum env (dailyKey env) d c w") auto
  have u1: "only_writes ?K d ?md w w1"
    by (rule only_writes_upload [OF up]) simp
  show ?thesis
  proof (cases r1)
    case (Inl e)
    with up u1 show ?thesis by (simp add: upload_and_cleanup_def)
  next
    case (Inr u)
    let ?wd = "log_Printf ''Daily backup uploaded: %s'' [dailyKey env] w1"
    have ud: "only_writes ?K d ?md w ?wd" using u1 by (rule only_writes_log)
    obtain rm wm where pm:
      "periodic_backup env ''monthly'' ''Monthly'' (monthlyKey env) d c ?wd = (rm, wm)"
      by (cases "periodic_backup env ''monthly'' ''Monthly'' (monthlyKey env) d c ?wd") auto
    have "only_writes ?K d ?md ?wd wm"
      by (rule only_writes_periodic [OF pm]) simp
    with ud have um: "only_writes ?K d ?md w wm" by (rule only_writes_trans)
    show ?thesis
    proof (cases rm)
      case (Inl e)
      with up Inr pm um show ?thesis by (simp add: upload_and_cleanup_def)
    next
      case rmOK: (Inr um')
      obtain ry wy where py:
        "periodic_backup env ''yearly'' ''Yearly'' (yearlyKey env) d c wm = (ry, wy)"
        by (cases "periodic_backup env ''yearly'' ''Yearly'' (yearlyKey env) d c wm") auto
      have "only_writes ?K d ?md wm wy"
        by (rule only_writes_periodic [OF py]) simp
      with um have uy: "only_writes ?K d ?md w wy" by (rule only_writes_trans)
      show ?thesis
      proof (cases ry)
        case (Inl e)
        with up Inr pm rmOK py uy show ?thesis by (simp add: upload_and_cleanup_def)
      next
        case (Inr uy')
        from only_writes_trans [OF uy only_writes_cleanup]
        have "only_writes ?K d ?md w (cleanup_and_finish env wy)" .
        with up \<open>r1 = Inr u\<close> pm rmOK py Inr show ?thesis by (simp add: upload_and_cleanup_def)
      qed
    qed
  qed
qed

lemma only_writes_HandleRequest:
  assumes "createBackup env = Inr d"
  shows "only_writes {dailyKey env, monthlyKey env, yearlyKey env} d
           [(''sha256'', calculateChecksum env d)] w (snd (HandleRequest env w))"
proof -
  let ?K = "{dailyKey env, monthlyKey env, yearlyKey env}"
  let ?c = "calculateChecksum env d"
  obtain b w1 where ch: "contentChanged_check env ?c (started w) = (b, w1)"
    by (cases "contentChanged_check env ?c (started w)") auto
  from contentChanged_check_frame [OF ch]
  obtain cs where "objects w1 = objects (started w)"
    "calls w1 = calls (started w) @ ListObjectsV2_call ''daily/'' # cs"
    "\<forall>x \<in> set cs. \<exists>k. x = HeadObject_call k \<or> x = GetObject_call k \<or> x = Body_read_call k"
    by blast
  then have "only_writes ?K d [(''sha256'', ?c)] w w1"
    by (intro only_writes_read [where cs = "ListObjectsV2_call ''daily/'' # cs"]) auto
  from this only_writes_trans [OF this only_writes_upload_and_cleanup [of env d ?c w1]]
  show ?thesis
    using assms ch by (cases b) (simp_all add: HandleRequest_def)
qed

subsection \<open>Evaluating the examples\<close>

lemmas world_eval = bucket_def quiet_env_def failing_env_def env_0810_def env_0810_failing_def
  stored_def legacy_def log_Println_def log_Printf_def request_def MaxKeys_def
  example_digest_def

lemmas run_eval = HandleRequest_def createBackup_def contentChanged_check_def
  findMostRecentBackup_def getObjectChecksum_def upload_and_cleanup_def periodic_backup_def
  objectExists_def uploadToS3WithChecksum_def cleanup_and_finish_def cleanupOldDailyBackups_def
  ListObjectsV2_def HeadObject_def GetObject_def read_Body_def PutObject_def DeleteObject_def
  calculateChecksum_def

lemma keys_2025_08_10:
  "Format_2006_01_02 \<lparr>Year = 2025, Month = 8, Day = 10, Nanos = n\<rparr> = ''2025-08-10''"
  "Format_2006_01 \<lparr>Year = 2025, Month = 8, Day = 10, Nanos = n\<rparr> = ''2025-08''"
  "Format_2006 \<lparr>Year = 2025, Month = 8, Day = 10, Nanos = n\<rparr> = ''2025''"
  by (simp_all add: Format_2006_def Format_2006_01_def Format_2006_01_02_def appendInt_def
        decimal.simps digit_def)

lemmas time_eval = at_0200_def keys_2025_08_10

lemmas prune_eval = cleanup_step_def prunable_def TrimSuffix_def suffix_to_prefix time_Parse_def
  isDigit_def digitVal_def getnum_fixed_def daysIn_def isLeap_def instant_def absDay_def
  daysBeforeYear_def daysBefore_def AddDate_days_def Before_def nsPerDay_def HasPrefix_def

lemma NotFound_eval:
  "Contains HeadObject_NotFound ''NotFound''"
  "\<not> Contains ''AccessDenied'' ''NotFound''"
  "\<not> Contains ''SlowDown'' ''NotFound''"
  by (simp_all add: Contains_def HeadObject_NotFound_def sublist_Cons_right)

lemmas example_eval = run_eval world_eval time_eval prune_eval dump_normalised NotFound_eval
  Let_def

lemma bucket_fields:
  "objects (bucket obs) = obs" "calls (bucket obs) = []" "logs (bucket obs) = []"
  by (simp_all add: bucket_def)

lemma quiet_run:
  "HandleRequest env_0810 (bucket []) =
     (Inr (),
      \<lparr>objects =
         [(''daily/2025-08-10-backup.sql'', stored table_sql 20310),
          (''monthly/2025-08-backup.sql'', stored table_sql 20310),
          (''yearly/2025-backup.sql'', stored table_sql 20310)],
       calls =
         [ListObjectsV2_call ''daily/'',
          PutObject_call ''daily/2025-08-10-backup.sql'' table_sql
            [(''sha256'', hex_EncodeToString table_sql)],
          HeadObject_call ''monthly/2025-08-backup.sql'',
          PutObject_call ''monthly/2025-08-backup.sql'' table_sql
            [(''sha256'', hex_EncodeToString table_sql)],
          HeadObject_call ''yearly/2025-backup.sql'',
          PutObject_call ''yearly/2025-backup.sql'' table_sql
            [(''sha256'', hex_EncodeToString table_sql)],
          ListObjectsV2_call ''daily/''],
       logs =
         [Println ''Starting database backup...'',
          Printf ''Daily backup uploaded: %s'' [''daily/2025-08-10-backup.sql''],
          Printf ''Monthly backup created: %s'' [''monthly/2025-08-backup.sql''],
          Printf ''Yearly backup created: %s'' [''yearly/2025-backup.sql''],
          Println ''Backup process completed successfully'']\<rparr>)"
  by (simp add: example_eval)

lemma failing_run:
  "HandleRequest (env_0810_failing 2 ''AccessDenied'') (bucket []) =
     (Inl ''failed to check monthly backup: AccessDenied'',
      \<lparr>objects = [(''daily/2025-08-10-backup.sql'', stored table_sql 20310)],
       calls =
         [ListObjectsV2_call ''daily/'',
          PutObject_call ''daily/2025-08-10-backup.sql'' table_sql
            [(''sha256'', hex_EncodeToString table_sql)],
          HeadObject_call ''monthly/2025-08-backup.sql''],
       logs =
         [Println ''Starting database backup...'',
          Printf ''Daily backup uploaded: %s'' [''daily/2025-08-10-backup.sql'']]\<rparr>)"
  "HandleRequest (env_0810_failing 3 ''SlowDown'') (bucket []) =
     (Inl ''failed to upload monthly backup: SlowDown'',
      \<lparr>objects = [(''daily/2025-08-10-backup.sql'', stored table_sql 20310)],
       calls =
         [ListObjectsV2_call ''daily/'',
          PutObject_call ''daily/2025-08-10-backup.sql'' table_sql
            [(''sha256'', hex_EncodeToString table_sql)],
          HeadObject_call ''monthly/2025-08-backup.sql'',
          PutObject_call ''monthly/2025-08-backup.sql'' table_sql
            [(''sha256'', hex_EncodeToString table_sql)]],
       logs =
         [Println ''Starting database backup...'',
          Printf ''Daily backup uploaded: %s'' [''daily/2025-08-10-backup.sql'']]\<rparr>)"
  "HandleRequest (env_0810_failing 4 ''AccessDenied'') (bucket []) =
     (Inl ''failed to check yearly backup: AccessDenied'',
      \<lparr>objects =
         [(''daily/2025-08-10-backup.sql'', stored table_sql 20310),
          (''monthly/2025-08-backup.sql'', stored table_sql 20310)],
       calls =
         [ListObjectsV2_call ''daily/'',
          PutObject_call ''daily/2025-08-10-backup.sql'' table_sql
            [(''sha256'', hex_EncodeToString table_sql)],
          HeadObject_call ''monthly/2025-08-backup.sql'',
          PutObject_call ''monthly/2025-08-backup.sql'' table_sql
            [(''sha256'', hex_EncodeToString table_sql)],
          HeadObject_call ''yearly/2025-backup.sql''],
       logs =
         [Println ''Starting database backup...'',
          Printf ''Daily backup uploaded: %s'' [''daily/2025-08-10-backup.sql''],
          Printf ''Monthly backup created: %s'' [''monthly/2025-08-backup.sql'']]\<rparr>)"
  by (simp_all add: example_eval)

lemma skipped_run:
  "HandleRequest env_0810
     (bucket [(''daily/2025-07-01-backup.sql'', stored ''CREATE TABLE old (id integer);'' 20270),
              (''daily/2025-08-09-backup.sql'', stored table_sql 20309)]) =
     (Inr (),
      \<lparr>objects =
         [(''daily/2025-07-01-backup.sql'', stored ''CREATE TABLE old (id integer);'' 20270),
          (''daily/2025-08-09-backup.sql'', stored table_sql 20309)],
       calls = [ListObjectsV2_call ''daily/'', HeadObject_call ''daily/2025-08-09-backup.sql''],
       logs =
         [Println ''Starting database backup...'',
          Printf ''Backup content unchanged from %s, skipping all uploads''
            [''daily/2025-08-09-backup.sql'']]\<rparr>)"
  by (simp add: example_eval)

lemma august_keys:
  "map fst august_dailies =
     [''daily/2025-08-01-backup.sql'', ''daily/2025-08-02-backup.sql'',
      ''daily/2025-08-03-backup.sql'', ''daily/2025-08-04-backup.sql'',
      ''daily/2025-08-05-backup.sql'', ''daily/2025-08-06-backup.sql'',
      ''daily/2025-08-07-backup.sql'', ''daily/2025-08-08-backup.sql'',
      ''daily/2025-08-09-backup.sql'', ''daily/2025-08-10-backup.sql'']"
  by (simp add: august_dailies_def daily_of_def)

lemma august_prunable_0200:
  "filter (prunable (AddDate_days (at_0200 2025 8 10) (- 7))) (map fst august_dailies)
   = [''daily/2025-08-01-backup.sql'', ''daily/2025-08-02-backup.sql'',
      ''daily/2025-08-03-backup.sql'']"
  unfolding august_keys by (simp add: time_eval prune_eval)

lemma august_prunable_midnight:
  "filter (prunable (AddDate_days \<lparr>Year = 2025, Month = 8, Day = 10, Nanos = 0\<rparr> (- 7)))
     (map fst august_dailies)
   = [''daily/2025-08-01-backup.sql'', ''daily/2025-08-02-backup.sql'']"
  unfolding august_keys by (simp add: time_eval prune_eval)

lemma august_listing:
  "ListObjectsV2 (quiet_env [] now) ''daily/'' (bucket august_dailies) =
     (Inr (map (\<lambda>(k, ob). (k, LastModified ob)) august_dailies),
      (bucket august_dailies)\<lparr>calls := [ListObjectsV2_call ''daily/'']\<rparr>)"
  by (simp add: ListObjectsV2_def world_eval august_dailies_def daily_of_def)

lemma map_fst_listing: "map fst (map (\<lambda>(k, ob). (k, LastModified ob)) obs) = map fst obs"
  by (induction obs) auto

lemmas parse_text_eval = ParseError_Error_def quote_def quote_byte_def lowerhex_def

lemma two_runs_calls:
  "calls (runs [env_0810, env_0810_failing 7 ''AccessDenied'']
            (bucket [(''monthly/2025-08-backup.sql'', stored ''-- 1 August'' 20301)])) =
     [ListObjectsV2_call ''daily/'',
      PutObject_call ''daily/2025-08-10-backup.sql'' table_sql
        [(''sha256'', hex_EncodeToString table_sql)],
      HeadObject_call ''monthly/2025-08-backup.sql'',
      HeadObject_call ''yearly/2025-backup.sql'',
      PutObject_call ''yearly/2025-backup.sql'' table_sql
        [(''sha256'', hex_EncodeToString table_sql)],
      ListObjectsV2_call ''daily/'',
      ListObjectsV2_call ''daily/'',
      HeadObject_call ''daily/2025-08-10-backup.sql'',
      PutObject_call ''daily/2025-08-10-backup.sql'' table_sql
        [(''sha256'', hex_EncodeToString table_sql)],
      HeadObject_call ''monthly/2025-08-backup.sql'',
      HeadObject_call ''yearly/2025-backup.sql'',
      ListObjectsV2_call ''daily/'']"
  by (simp add: example_eval)

section \<open>The claims\<close>

subsection \<open>C1\<close>

text \<open>
  Claim C1. When a most recent daily object exists and the fingerprint the handler reads for
  it equals the fingerprint of the new, normalised dump, the run succeeds without changing
  the bucket: it sends no write (and no delete) at all, so no daily, monthly or yearly object
  is put.
\<close>

theorem unchanged_content_no_writes:
  assumes backup: "createBackup env = Inr backupData"
    and recent: "findMostRecentBackup env ''daily/'' (started w0) = (Inr key, w1)"
    and key: "key \<noteq> []"
    and same: "getObjectChecksum env key w1 = (Inr (calculateChecksum env backupData), w2)"
  shows "fst (HandleRequest env w0) = Inr () \<and>
         objects (snd (HandleRequest env w0)) = objects w0 \<and>
         list_all (\<lambda>c. \<not> is_PutObject c \<and> \<not> is_DeleteObject c)
           (new_calls w0 (snd (HandleRequest env w0)))"
proof -
  have run: "HandleRequest env w0 =
      (Inr (), log_Printf ''Backup content unchanged from %s, skipping all uploads'' [key] w2)"
    using backup recent key same
    by (simp add: HandleRequest_def contentChanged_check_def)
  from findMostRecentBackup_frame [OF recent]
  have w1: "calls w1 = calls w0 @ [ListObjectsV2_call ''daily/'']" "objects w1 = objects w0"
    by simp_all
  from getObjectChecksum_frame [OF same]
  have obj2: "objects w2 = objects w1"
    and "calls w2 = calls w1 @ [HeadObject_call key] \<or>
      calls w2 = calls w1 @ [HeadObject_call key, GetObject_call key] \<or>
      calls w2 = calls w1 @ [HeadObject_call key, GetObject_call key, Body_read_call key]"
    by simp_all
  then have "list_all (\<lambda>c. \<not> is_PutObject c \<and> \<not> is_DeleteObject c) (new_calls w0 w2)"
    using w1 by (auto simp: new_calls_def)
  then show ?thesis using run w1 obj2 by (simp add: new_calls_def)
qed

text \<open>The scenario of the specification: the dump of 10 August differs from the one stored on
  9 August in its timestamp comments only; the run is skipped and nothing is written.\<close>

theorem unchanged_content_no_writes_witness:
  "createBackup env_0810 = Inr table_sql
   \<and> findMostRecentBackup env_0810 ''daily/''
         (started (bucket [(''daily/2025-08-09-backup.sql'', stored table_sql 20309)]))
       = (Inr ''daily/2025-08-09-backup.sql'',
          (started (bucket [(''daily/2025-08-09-backup.sql'', stored table_sql 20309)]))
            \<lparr>calls := [ListObjectsV2_call ''daily/'']\<rparr>)
   \<and> fst (getObjectChecksum env_0810 ''daily/2025-08-09-backup.sql''
         ((started (bucket [(''daily/2025-08-09-backup.sql'', stored table_sql 20309)]))
            \<lparr>calls := [ListObjectsV2_call ''daily/'']\<rparr>))
       = Inr (calculateChecksum env_0810 table_sql)
   \<and> fst (HandleRequest env_0810
            (bucket [(''daily/2025-08-09-backup.sql'', stored table_sql 20309)])) = Inr ()
   \<and> objects (snd (HandleRequest env_0810
            (bucket [(''daily/2025-08-09-backup.sql'', stored table_sql 20309)])))
       = [(''daily/2025-08-09-backup.sql'', stored table_sql 20309)]
   \<and> list_all (\<lambda>c. \<not> is_PutObject c \<and> \<not> is_DeleteObject c)
         (new_calls (bucket [(''daily/2025-08-09-backup.sql'', stored table_sql 20309)])
            (snd (HandleRequest env_0810
               (bucket [(''daily/2025-08-09-backup.sql'', stored table_sql 20309)]))))"
proof -
  let ?key = "''daily/2025-08-09-backup.sql''"
  let ?w0 = "bucket [(?key, stored table_sql 20309)]"
  let ?w1 = "(started ?w0)\<lparr>calls := [ListObjectsV2_call ''daily/'']\<rparr>"
  let ?w2 = "(started ?w0)\<lparr>calls := [ListObjectsV2_call ''daily/'', HeadObject_call ?key]\<rparr>"
  have h1: "createBackup env_0810 = Inr table_sql"
    by (simp add: createBackup_def world_eval dump_normalised)
  have h2: "findMostRecentBackup env_0810 ''daily/'' (started ?w0) = (Inr ?key, ?w1)"
    by (simp add: findMostRecentBackup_def ListObjectsV2_def world_eval)
  have h3: "?key \<noteq> []" by simp
  have h4: "getObjectChecksum env_0810 ?key ?w1 = (Inr (calculateChecksum env_0810 table_sql), ?w2)"
    by (simp add: getObjectChecksum_def HeadObject_def calculateChecksum_def world_eval)
  from unchanged_content_no_writes [OF h1 h2 h3 h4] h1 h2 h4 show ?thesis
    by (simp add: bucket_def)
qed

subsection \<open>C2\<close>

text \<open>
  Claim C2, as amended. A run with changed content reaches the cleanup unless it ends on a
  fatal error, and the fatal errors are those of the daily write and of each monthly and
  yearly existence check and write: when such a run returns success it has listed the daily
  prefix a second time, which is the start of \<open>cleanupOldDailyBackups\<close>, and ends with the
  cleanup; when it returns an error, that error is one of the five and the cleanup was not
  started. (Nothing is said here of a run skipped for unchanged content.)
\<close>

theorem changed_run_prunes_unless_fatal:
  assumes backup: "createBackup env = Inr backupData"
    and changed: "contentChanged_check env (calculateChecksum env backupData) (started w0)
                    = (True, w1)"
  shows "(fst (HandleRequest env w0) = Inr () \<longrightarrow>
            daily_listings w0 (snd (HandleRequest env w0)) = 2 \<and>
            (\<exists>w. snd (HandleRequest env w0) = cleanup_and_finish env w))
       \<and> (\<forall>e. fst (HandleRequest env w0) = Inl e \<longrightarrow>
            daily_listings w0 (snd (HandleRequest env w0)) = 1 \<and>
            is_upload_error e)"
proof -
  let ?L = "ListObjectsV2_call ''daily/''"
  let ?c = "calculateChecksum env backupData"
  have run: "HandleRequest env w0 = upload_and_cleanup env backupData ?c w1"
    using backup changed by (simp add: HandleRequest_def)
  obtain r w' where out: "upload_and_cleanup env backupData ?c w1 = (r, w')"
    by (cases "upload_and_cleanup env backupData ?c w1") auto
  from contentChanged_check_frame(2) [OF changed]
  obtain cs where cs: "calls w1 = calls w0 @ ?L # cs" "count_list cs ?L = 0"
    by (fastforce simp: count_list_0_iff)
  from upload_and_cleanup_outcome [OF out]
  obtain cu where cu: "calls w' = calls w1 @ cu"
    and res: "case r of
              Inr u \<Rightarrow> count_list cu ?L = 1 \<and> (\<exists>w4. w' = cleanup_and_finish env w4)
            | Inl e \<Rightarrow> count_list cu ?L = 0 \<and>
                       is_upload_error e"
    by blast
  have n: "daily_listings w0 w' = 1 + count_list cu ?L"
    using cs cu by (simp add: daily_listings_def new_calls_def)
  show ?thesis
  proof (cases r)
    case (Inl e)
    with res n run out show ?thesis by simp
  next
    case (Inr u)
    with res n run out show ?thesis by auto
  qed
qed

text \<open>A first run on an empty bucket succeeds and lists the daily prefix twice; the same run with
  a failing yearly existence check ends on that error after one listing.\<close>

theorem changed_run_prunes_unless_fatal_witness:
  "createBackup env_0810 = Inr table_sql
   \<and> contentChanged_check env_0810 (calculateChecksum env_0810 table_sql) (started (bucket []))
       = (True, (started (bucket []))\<lparr>calls := [ListObjectsV2_call ''daily/'']\<rparr>)
   \<and> fst (HandleRequest env_0810 (bucket [])) = Inr ()
   \<and> daily_listings (bucket []) (snd (HandleRequest env_0810 (bucket []))) = 2
   \<and> fst (HandleRequest (env_0810_failing 4 ''AccessDenied'') (bucket []))
       = Inl ''failed to check yearly backup: AccessDenied''
   \<and> daily_listings (bucket []) (snd (HandleRequest (env_0810_failing 4 ''AccessDenied'') (bucket [])))
       = 1
   \<and> is_upload_error ''failed to check yearly backup: AccessDenied''"
proof -
  let ?w1 = "(started (bucket []))\<lparr>calls := [ListObjectsV2_call ''daily/'']\<rparr>"
  let ?f = "env_0810_failing 4 ''AccessDenied''"
  have b: "createBackup env_0810 = Inr table_sql"
    by (simp add: createBackup_def world_eval dump_normalised)
  have c: "contentChanged_check env_0810 (calculateChecksum env_0810 table_sql) (started (bucket []))
             = (True, ?w1)"
    by (simp add: contentChanged_check_def findMostRecentBackup_def ListObjectsV2_def world_eval)
  have bf: "createBackup ?f = Inr table_sql"
    by (simp add: createBackup_def world_eval dump_normalised)
  have cf: "contentChanged_check ?f (calculateChecksum ?f table_sql) (started (bucket []))
             = (True, ?w1)"
    by (simp add: contentChanged_check_def findMostRecentBackup_def ListObjectsV2_def world_eval)
  have ok: "fst (HandleRequest env_0810 (bucket [])) = Inr ()"
    by (simp add: quiet_run)
  have err: "fst (HandleRequest ?f (bucket [])) = Inl ''failed to check yearly backup: AccessDenied''"
    by (simp add: failing_run(3))
  from changed_run_prunes_unless_fatal [OF b c] ok
  have two: "daily_listings (bucket []) (snd (HandleRequest env_0810 (bucket []))) = 2"
    by blast
  from changed_run_prunes_unless_fatal [OF bf cf] err
  have one: "daily_listings (bucket []) (snd (HandleRequest ?f (bucket []))) = 1
             \<and> is_upload_error ''failed to check yearly backup: AccessDenied''"
    by blast
  from b c ok two err one show ?thesis by blast
qed

text \<open>The claim as stated fails. A run skipped for unchanged content returns success after its
  two read requests, leaving in the bucket a daily object the cleanup would delete; and a run
  whose monthly existence check fails ends on that error, after the daily write and without
  a cleanup.\<close>

theorem run_without_pruning_counterexample:
  "fst (HandleRequest env_0810
          (bucket [(''daily/2025-07-01-backup.sql'', stored ''CREATE TABLE old (id integer);'' 20270),
                   (''daily/2025-08-09-backup.sql'', stored table_sql 20309)])) = Inr ()
   \<and> calls (snd (HandleRequest env_0810
          (bucket [(''daily/2025-07-01-backup.sql'', stored ''CREATE TABLE old (id integer);'' 20270),
                   (''daily/2025-08-09-backup.sql'', stored table_sql 20309)])))
       = [ListObjectsV2_call ''daily/'', HeadObject_call ''daily/2025-08-09-backup.sql'']
   \<and> prunable (AddDate_days (now_cleanup env_0810) (- 7)) ''daily/2025-07-01-backup.sql''
   \<and> map fst (objects (snd (HandleRequest env_0810
          (bucket [(''daily/2025-07-01-backup.sql'', stored ''CREATE TABLE old (id integer);'' 20270),
                   (''daily/2025-08-09-backup.sql'', stored table_sql 20309)]))))
       = [''daily/2025-07-01-backup.sql'', ''daily/2025-08-09-backup.sql'']
   \<and> fst (HandleRequest (env_0810_failing 2 ''AccessDenied'') (bucket []))
       = Inl ''failed to check monthly backup: AccessDenied''
   \<and> calls (snd (HandleRequest (env_0810_failing 2 ''AccessDenied'') (bucket [])))
       = [ListObjectsV2_call ''daily/'',
          PutObject_call ''daily/2025-08-10-backup.sql'' table_sql
            [(''sha256'', hex_EncodeToString table_sql)],
          HeadObject_call ''monthly/2025-08-backup.sql'']
   \<and> daily_listings (bucket []) (snd (HandleRequest (env_0810_failing 2 ''AccessDenied'') (bucket [])))
       = 1"
proof -
  have "prunable (AddDate_days (now_cleanup env_0810) (- 7)) ''daily/2025-07-01-backup.sql''"
    by (simp add: world_eval time_eval prune_eval)
  moreover have "calls (bucket []) = []" by (simp add: bucket_def)
  ultimately show ?thesis
    by (simp add: skipped_run failing_run(1) daily_listings_def new_calls_def)
qed

subsection \<open>C3\<close>

text \<open>
  Claim C3. An object that exists at the monthly (or yearly) key of a period is never
  overwritten: through any sequence of later runs, whatever their content, clock and failed
  requests, the same object stays at that key and no write to that key is even requested;
  so a run writes the monthly or yearly key only when no object exists there, and the key is
  written at most once. The store is taken to tell "not found" apart from its other errors.
\<close>

theorem periodic_object_written_once:
  assumes honest: "\<forall>env \<in> set envs. faults_distinguish_NotFound env"
    and period: "key = monthlyKey e \<or> key = yearlyKey e"
    and present: "map_of (objects w) key = Some ob"
  shows "map_of (objects (runs envs w)) key = Some ob \<and>
         (\<forall>d md. PutObject_call key d md \<notin> set (new_calls w (runs envs w)))"
proof -
  from period have "prefix ''monthly/'' key \<or> prefix ''yearly/'' key" by auto
  from runs_untouched [OF honest present this] show ?thesis
    by (auto simp: left_untouched_def new_calls_def)
qed

text \<open>Two runs of 10 August 2025 on a bucket that holds the monthly object of 1 August, the
  second with a failing request. In both the existence check of the monthly key succeeds and
  finds the object: each run asks for it and neither writes it, while the yearly object, absent
  at first, is written by the first run and found by the second.\<close>

theorem periodic_object_written_once_witness:
  "faults_distinguish_NotFound env_0810
   \<and> faults_distinguish_NotFound (env_0810_failing 7 ''AccessDenied'')
   \<and> ''monthly/2025-08-backup.sql'' = monthlyKey env_0810
   \<and> map_of (objects (bucket [(''monthly/2025-08-backup.sql'', stored ''-- 1 August'' 20301)]))
         ''monthly/2025-08-backup.sql'' = Some (stored ''-- 1 August'' 20301)
   \<and> calls (runs [env_0810, env_0810_failing 7 ''AccessDenied'']
            (bucket [(''monthly/2025-08-backup.sql'', stored ''-- 1 August'' 20301)])) =
     [ListObjectsV2_call ''daily/'',
      PutObject_call ''daily/2025-08-10-backup.sql'' table_sql
        [(''sha256'', hex_EncodeToString table_sql)],
      HeadObject_call ''monthly/2025-08-backup.sql'',
      HeadObject_call ''yearly/2025-backup.sql'',
      PutObject_call ''yearly/2025-backup.sql'' table_sql
        [(''sha256'', hex_EncodeToString table_sql)],
      ListObjectsV2_call ''daily/'',
      ListObjectsV2_call ''daily/'',
      HeadObject_call ''daily/2025-08-10-backup.sql'',
      PutObject_call ''daily/2025-08-10-backup.sql'' table_sql
        [(''sha256'', hex_EncodeToString table_sql)],
      HeadObject_call ''monthly/2025-08-backup.sql'',
      HeadObject_call ''yearly/2025-backup.sql'',
      ListObjectsV2_call ''daily/'']
   \<and> map_of (objects (runs [env_0810, env_0810_failing 7 ''AccessDenied'']
                         (bucket [(''monthly/2025-08-backup.sql'', stored ''-- 1 August'' 20301)])))
         ''monthly/2025-08-backup.sql'' = Some (stored ''-- 1 August'' 20301)
   \<and> (\<forall>d md. PutObject_call ''monthly/2025-08-backup.sql'' d md \<notin>
         set (new_calls (bucket [(''monthly/2025-08-backup.sql'', stored ''-- 1 August'' 20301)])
                (runs [env_0810, env_0810_failing 7 ''AccessDenied'']
                   (bucket [(''monthly/2025-08-backup.sql'', stored ''-- 1 August'' 20301)]))))"
proof -
  let ?envs = "[env_0810, env_0810_failing 7 ''AccessDenied'']"
  let ?w = "bucket [(''monthly/2025-08-backup.sql'', stored ''-- 1 August'' 20301)]"
  have honest: "\<forall>env \<in> set ?envs. faults_distinguish_NotFound env"
    by (simp add: faults_distinguish_NotFound_def world_eval NotFound_eval)
  have period: "''monthly/2025-08-backup.sql'' = monthlyKey env_0810
                  \<or> ''monthly/2025-08-backup.sql'' = yearlyKey env_0810"
    by (simp add: world_eval time_eval)
  have present: "map_of (objects ?w) ''monthly/2025-08-backup.sql''
                   = Some (stored ''-- 1 August'' 20301)"
    by (simp add: bucket_fields)
  have key: "''monthly/2025-08-backup.sql'' = monthlyKey env_0810"
    by (simp add: world_eval time_eval)
  from honest have h1: "faults_distinguish_NotFound env_0810"
    and h2: "faults_distinguish_NotFound (env_0810_failing 7 ''AccessDenied'')"
    by simp_all
  note kept = periodic_object_written_once [OF honest period present]
  from h1 h2 key present two_runs_calls kept [THEN conjunct1] kept [THEN conjunct2]
  show ?thesis by (intro conjI)
qed

subsection \<open>C4\<close>

text \<open>
  Claim C4, as amended. In a run with changed content whose daily write succeeded, a failure
  of the monthly or yearly existence check (other than "not found", which counts as absent)
  or of the monthly or yearly write is fatal: the run returns that error at once, in the
  world of the failed request, and never starts the cleanup.
\<close>

theorem monthly_yearly_failure_is_fatal:
  assumes backup: "createBackup env = Inr backupData"
    and changed: "contentChanged_check env (calculateChecksum env backupData) (started w0)
                    = (True, w1)"
    and daily: "uploadToS3WithChecksum env (dailyKey env) backupData
                  (calculateChecksum env backupData) w1 = (Inr (), w2)"
    and failure:
      "(objectExists env (monthlyKey env)
          (log_Printf ''Daily backup uploaded: %s'' [dailyKey env] w2) = (Inl err, w3)
        \<and> e = ''failed to check monthly backup: '' @ err)
       \<or> (\<exists>wm. objectExists env (monthlyKey env)
                 (log_Printf ''Daily backup uploaded: %s'' [dailyKey env] w2) = (Inr False, wm)
              \<and> uploadToS3WithChecksum env (monthlyKey env) backupData
                   (calculateChecksum env backupData) wm = (Inl err, w3)
              \<and> e = ''failed to upload monthly backup: '' @ err)
       \<or> (\<exists>wm. periodic_backup env ''monthly'' ''Monthly'' (monthlyKey env) backupData
                 (calculateChecksum env backupData)
                 (log_Printf ''Daily backup uploaded: %s'' [dailyKey env] w2) = (Inr (), wm)
              \<and> objectExists env (yearlyKey env) wm = (Inl err, w3)
              \<and> e = ''failed to check yearly backup: '' @ err)
       \<or> (\<exists>wm wy. periodic_backup env ''monthly'' ''Monthly'' (monthlyKey env) backupData
                 (calculateChecksum env backupData)
                 (log_Printf ''Daily backup uploaded: %s'' [dailyKey env] w2) = (Inr (), wm)
              \<and> objectExists env (yearlyKey env) wm = (Inr False, wy)
              \<and> uploadToS3WithChecksum env (yearlyKey env) backupData
                   (calculateChecksum env backupData) wy = (Inl err, w3)
              \<and> e = ''failed to upload yearly backup: '' @ err)"
  shows "HandleRequest env w0 = (Inl e, w3) \<and> daily_listings w0 w3 = 1"
proof -
  let ?c = "calculateChecksum env backupData"
  let ?wd = "log_Printf ''Daily backup uploaded: %s'' [dailyKey env] w2"
  have run: "HandleRequest env w0 = upload_and_cleanup env backupData ?c w1"
    using backup changed by (simp add: HandleRequest_def)
  have up: "upload_and_cleanup env backupData ?c w1 = (Inl e, w3)"
    using failure
  proof (elim disjE exE conjE)
    assume "objectExists env (monthlyKey env) ?wd = (Inl err, w3)"
      and e: "e = ''failed to check monthly backup: '' @ err"
    from periodic_backup_check_fails [OF this(1), of "''monthly''" "''Monthly''" backupData ?c]
    show ?thesis
      using upload_and_cleanup_monthly_fails [OF daily] e by simp
  next
    fix wm
    assume "objectExists env (monthlyKey env) ?wd = (Inr False, wm)"
      and "uploadToS3WithChecksum env (monthlyKey env) backupData ?c wm = (Inl err, w3)"
      and e: "e = ''failed to upload monthly backup: '' @ err"
    from periodic_backup_upload_fails [OF this(1,2), of "''monthly''" "''Monthly''"]
    show ?thesis
      using upload_and_cleanup_monthly_fails [OF daily] e by simp
  next
    fix wm
    assume m: "periodic_backup env ''monthly'' ''Monthly'' (monthlyKey env) backupData ?c ?wd
                 = (Inr (), wm)"
      and "objectExists env (yearlyKey env) wm = (Inl err, w3)"
      and e: "e = ''failed to check yearly backup: '' @ err"
    from periodic_backup_check_fails [OF this(2), of "''yearly''" "''Yearly''" backupData ?c]
    show ?thesis
      using upload_and_cleanup_yearly_fails [OF daily m] e by simp
  next
    fix wm wy
    assume m: "periodic_backup env ''monthly'' ''Monthly'' (monthlyKey env) backupData ?c ?wd
                 = (Inr (), wm)"
      and "objectExists env (yearlyKey env) wm = (Inr False, wy)"
      and "uploadToS3WithChecksum env (yearlyKey env) backupData ?c wy = (Inl err, w3)"
      and e: "e = ''failed to upload yearly backup: '' @ err"
    from periodic_backup_upload_fails [OF this(2,3), of "''yearly''" "''Yearly''"]
    show ?thesis
      using upload_and_cleanup_yearly_fails [OF daily m] e by simp
  qed
  from contentChanged_check_frame(2) [OF changed]
  obtain cs where cs: "calls w1 = calls w0 @ ListObjectsV2_call ''daily/'' # cs"
      "count_list cs (ListObjectsV2_call ''daily/'') = 0"
    by (fastforce simp: count_list_0_iff)
  from upload_and_cleanup_outcome [OF up]
  obtain cu where "calls w3 = calls w1 @ cu" "count_list cu (ListObjectsV2_call ''daily/'') = 0"
    by auto
  with cs have "daily_listings w0 w3 = 1"
    by (simp add: daily_listings_def new_calls_def)
  with run up show ?thesis by simp
qed

text \<open>A run whose yearly write fails returns that error and stops.\<close>

theorem monthly_yearly_failure_is_fatal_witness:
  "createBackup (env_0810_failing 5 ''SlowDown'') = Inr table_sql
   \<and> fst (contentChanged_check (env_0810_failing 5 ''SlowDown'')
            (calculateChecksum (env_0810_failing 5 ''SlowDown'') table_sql) (started (bucket [])))
   \<and> fst (HandleRequest (env_0810_failing 5 ''SlowDown'') (bucket []))
       = Inl ''failed to upload yearly backup: SlowDown''
   \<and> calls (snd (HandleRequest (env_0810_failing 5 ''SlowDown'') (bucket [])))
       = [ListObjectsV2_call ''daily/'',
          PutObject_call ''daily/2025-08-10-backup.sql'' table_sql
            [(''sha256'', hex_EncodeToString table_sql)],
          HeadObject_call ''monthly/2025-08-backup.sql'',
          PutObject_call ''monthly/2025-08-backup.sql'' table_sql
            [(''sha256'', hex_EncodeToString table_sql)],
          HeadObject_call ''yearly/2025-backup.sql'',
          PutObject_call ''yearly/2025-backup.sql'' table_sql
            [(''sha256'', hex_EncodeToString table_sql)]]
   \<and> daily_listings (bucket []) (snd (HandleRequest (env_0810_failing 5 ''SlowDown'') (bucket [])))
       = 1"
proof -
  let ?env = "env_0810_failing 5 ''SlowDown''"
  let ?c = "calculateChecksum ?env table_sql"
  let ?w1 = "snd (contentChanged_check ?env ?c (started (bucket [])))"
  let ?w2 = "snd (uploadToS3WithChecksum ?env (dailyKey ?env) table_sql ?c ?w1)"
  let ?wd = "log_Printf ''Daily backup uploaded: %s'' [dailyKey ?env] ?w2"
  let ?wm = "snd (periodic_backup ?env ''monthly'' ''Monthly'' (monthlyKey ?env) table_sql ?c ?wd)"
  let ?wy = "snd (objectExists ?env (yearlyKey ?env) ?wm)"
  let ?w3 = "snd (uploadToS3WithChecksum ?env (yearlyKey ?env) table_sql ?c ?wy)"
  have backup: "createBackup ?env = Inr table_sql"
    by (simp add: createBackup_def world_eval dump_normalised)
  have changed: "contentChanged_check ?env ?c (started (bucket [])) = (True, ?w1)"
    by (simp add: example_eval)
  have daily: "uploadToS3WithChecksum ?env (dailyKey ?env) table_sql ?c ?w1 = (Inr (), ?w2)"
    by (simp add: example_eval)
  have monthly: "periodic_backup ?env ''monthly'' ''Monthly'' (monthlyKey ?env) table_sql ?c ?wd
                   = (Inr (), ?wm)"
    by (simp add: example_eval)
  have check: "objectExists ?env (yearlyKey ?env) ?wm = (Inr False, ?wy)"
    by (simp add: example_eval)
  have upload: "uploadToS3WithChecksum ?env (yearlyKey ?env) table_sql ?c ?wy
                  = (Inl ''SlowDown'', ?w3)"
    by (simp add: example_eval)
  have failure:
    "(objectExists ?env (monthlyKey ?env) ?wd = (Inl ''SlowDown'', ?w3)
        \<and> ''failed to upload yearly backup: SlowDown'' = ''failed to check monthly backup: '' @ ''SlowDown'')
       \<or> (\<exists>wm. objectExists ?env (monthlyKey ?env) ?wd = (Inr False, wm)
              \<and> uploadToS3WithChecksum ?env (monthlyKey ?env) table_sql ?c wm = (Inl ''SlowDown'', ?w3)
              \<and> ''failed to upload yearly backup: SlowDown'' = ''failed to upload monthly backup: '' @ ''SlowDown'')
       \<or> (\<exists>wm. periodic_backup ?env ''monthly'' ''Monthly'' (monthlyKey ?env) table_sql ?c ?wd = (Inr (), wm)
              \<and> objectExists ?env (yearlyKey ?env) wm = (Inl ''SlowDown'', ?w3)
              \<and> ''failed to upload yearly backup: SlowDown'' = ''failed to check yearly backup: '' @ ''SlowDown'')
       \<or> (\<exists>wm wy. periodic_backup ?env ''monthly'' ''Monthly'' (monthlyKey ?env) table_sql ?c ?wd = (Inr (), wm)
              \<and> objectExists ?env (yearlyKey ?env) wm = (Inr False, wy)
              \<and> uploadToS3WithChecksum ?env (yearlyKey ?env) table_sql ?c wy = (Inl ''SlowDown'', ?w3)
              \<and> ''failed to upload yearly backup: SlowDown'' = ''failed to upload yearly backup: '' @ ''SlowDown'')"
    using monthly check upload by (intro disjI2 exI [of _ ?wm] exI [of _ ?wy]) simp
  note fatal = monthly_yearly_failure_is_fatal [OF backup changed daily failure]
  from fatal have run: "HandleRequest ?env (bucket []) =
      (Inl ''failed to upload yearly backup: SlowDown'', ?w3)" by (rule conjunct1)
  from fatal have one: "daily_listings (bucket []) ?w3 = 1" by (rule conjunct2)
  from run have r: "fst (HandleRequest ?env (bucket [])) = Inl ''failed to upload yearly backup: SlowDown''"
    by (simp only: fst_conv)
  from run have s: "snd (HandleRequest ?env (bucket [])) = ?w3"
    by (simp only: snd_conv)
  have "calls ?w3 = [ListObjectsV2_call ''daily/'',
          PutObject_call ''daily/2025-08-10-backup.sql'' table_sql
            [(''sha256'', hex_EncodeToString table_sql)],
          HeadObject_call ''monthly/2025-08-backup.sql'',
          PutObject_call ''monthly/2025-08-backup.sql'' table_sql
            [(''sha256'', hex_EncodeToString table_sql)],
          HeadObject_call ''yearly/2025-backup.sql'',
          PutObject_call ''yearly/2025-backup.sql'' table_sql
            [(''sha256'', hex_EncodeToString table_sql)]]"
    by (simp add: example_eval)
  then have c: "calls (snd (HandleRequest ?env (bucket []))) = [ListObjectsV2_call ''daily/'',
          PutObject_call ''daily/2025-08-10-backup.sql'' table_sql
            [(''sha256'', hex_EncodeToString table_sql)],
          HeadObject_call ''monthly/2025-08-backup.sql'',
          PutObject_call ''monthly/2025-08-backup.sql'' table_sql
            [(''sha256'', hex_EncodeToString table_sql)],
          HeadObject_call ''yearly/2025-backup.sql'',
          PutObject_call ''yearly/2025-backup.sql'' table_sql
            [(''sha256'', hex_EncodeToString table_sql)]]"
    by (simp only: s)
  from one have n: "daily_listings (bucket []) (snd (HandleRequest ?env (bucket []))) = 1"
    by (simp only: s)
  have ch: "fst (contentChanged_check ?env ?c (started (bucket [])))"
    by (simp add: example_eval)
  from backup ch r c n show ?thesis by (intro conjI)
qed

text \<open>The claim as stated fails: when the monthly write fails the run does not go on to succeed,
  it returns the error, and the yearly key is never looked at.\<close>

theorem monthly_upload_failure_counterexample:
  "fst (HandleRequest (env_0810_failing 3 ''SlowDown'') (bucket []))
     = Inl ''failed to upload monthly backup: SlowDown''
   \<and> calls (snd (HandleRequest (env_0810_failing 3 ''SlowDown'') (bucket [])))
     = [ListObjectsV2_call ''daily/'',
        PutObject_call ''daily/2025-08-10-backup.sql'' table_sql
          [(''sha256'', hex_EncodeToString table_sql)],
        HeadObject_call ''monthly/2025-08-backup.sql'',
        PutObject_call ''monthly/2025-08-backup.sql'' table_sql
          [(''sha256'', hex_EncodeToString table_sql)]]"
  by (simp add: failing_run(2))

subsection \<open>C5\<close>

text \<open>
  Claim C5, as amended. Given any listing of the daily prefix, the cleanup requests the
  deletion of exactly the listed keys that have two parts around one slash, whose second part
  (less \<open>-backup.sql\<close>) parses as a date, and whose date at midnight UTC is strictly before
  the instant seven calendar days before now: that is, dates more than seven days before
  today's date, and also the date exactly seven days before today's whenever now is past
  midnight. When none of these requests fails, exactly those objects leave the bucket.
\<close>

theorem pruning_deletes_before_cutoff_instant:
  assumes listing: "ListObjectsV2 env ''daily/'' w = (Inr contents, w1)"
    and time_of_day: "int (Nanos (now_cleanup env)) < nsPerDay"
  shows "calls (snd (cleanupOldDailyBackups env w)) =
           calls w1 @ map DeleteObject_call
             (filter (prunable (AddDate_days (now_cleanup env) (- 7))) (map fst contents))
       \<and> (\<forall>key. prunable (AddDate_days (now_cleanup env) (- 7)) key \<longleftrightarrow>
             (\<exists>dir name d. Split key (CHR ''/'') = [dir, name] \<and>
                time_Parse (TrimSuffix name ''-backup.sql'') = Inr d \<and>
                (absDay d + 7 < absDay (now_cleanup env) \<or>
                 (absDay d + 7 = absDay (now_cleanup env) \<and> 0 < Nanos (now_cleanup env)))))
       \<and> ((\<forall>i < length (filter (prunable (AddDate_days (now_cleanup env) (- 7))) (map fst contents)).
              faults env (length (calls w1) + i) = None) \<longrightarrow>
           objects (snd (cleanupOldDailyBackups env w)) =
             filter (\<lambda>(k, ob). k \<notin> set (filter (prunable (AddDate_days (now_cleanup env) (- 7)))
                                       (map fst contents))) (objects w))"
proof -
  from ListObjectsV2_frame [OF listing] have "objects w1 = objects w" by simp
  then show ?thesis
    using cleanupOldDailyBackups_listed [OF listing] prunable_iff [OF time_of_day]
    by (simp add: cleanup_loop_calls cleanup_loop_no_faults)
qed

text \<open>At midnight sharp of 10 August 2025 the cleanup deletes the dailies of 1 and 2 August.\<close>

theorem pruning_deletes_before_cutoff_instant_witness:
  "ListObjectsV2 (quiet_env [] \<lparr>Year = 2025, Month = 8, Day = 10, Nanos = 0\<rparr>) ''daily/''
       (bucket august_dailies)
     = (Inr (map (\<lambda>(k, ob). (k, LastModified ob)) august_dailies),
        (bucket august_dailies)\<lparr>calls := [ListObjectsV2_call ''daily/'']\<rparr>)
   \<and> int (Nanos (now_cleanup (quiet_env [] \<lparr>Year = 2025, Month = 8, Day = 10, Nanos = 0\<rparr>)))
       < nsPerDay
   \<and> calls (snd (cleanupOldDailyBackups
                   (quiet_env [] \<lparr>Year = 2025, Month = 8, Day = 10, Nanos = 0\<rparr>)
                   (bucket august_dailies)))
       = [ListObjectsV2_call ''daily/'',
          DeleteObject_call ''daily/2025-08-01-backup.sql'',
          DeleteObject_call ''daily/2025-08-02-backup.sql'']
   \<and> map fst (objects (snd (cleanupOldDailyBackups
                   (quiet_env [] \<lparr>Year = 2025, Month = 8, Day = 10, Nanos = 0\<rparr>)
                   (bucket august_dailies))))
       = [''daily/2025-08-03-backup.sql'', ''daily/2025-08-04-backup.sql'',
          ''daily/2025-08-05-backup.sql'', ''daily/2025-08-06-backup.sql'',
          ''daily/2025-08-07-backup.sql'', ''daily/2025-08-08-backup.sql'',
          ''daily/2025-08-09-backup.sql'', ''daily/2025-08-10-backup.sql'']"
proof -
  let ?now = "\<lparr>Year = 2025, Month = 8, Day = 10, Nanos = 0\<rparr>"
  let ?env = "quiet_env [] ?now"
  let ?w1 = "(bucket august_dailies)\<lparr>calls := [ListObjectsV2_call ''daily/'']\<rparr>"
  note listing = august_listing [of ?now]
  have now: "now_cleanup ?env = ?now" by (simp add: quiet_env_def)
  have tod: "int (Nanos (now_cleanup ?env)) < nsPerDay"
    by (simp add: now nsPerDay_def)
  note T = pruning_deletes_before_cutoff_instant [OF listing tod]
  have quiet: "\<forall>i < length (filter (prunable (AddDate_days (now_cleanup ?env) (- 7)))
                           (map fst (map (\<lambda>(k, ob). (k, LastModified ob)) august_dailies))).
            faults ?env (length (calls ?w1) + i) = None"
    by (simp add: quiet_env_def)
  from T [THEN conjunct1]
  have c: "calls (snd (cleanupOldDailyBackups ?env (bucket august_dailies)))
       = [ListObjectsV2_call ''daily/'',
          DeleteObject_call ''daily/2025-08-01-backup.sql'',
          DeleteObject_call ''daily/2025-08-02-backup.sql'']"
    unfolding now map_fst_listing august_prunable_midnight by (simp add: bucket_def)
  from T [THEN conjunct2, THEN conjunct2, THEN mp, OF quiet]
  have "objects (snd (cleanupOldDailyBackups ?env (bucket august_dailies))) =
      filter (\<lambda>(k, ob). k \<notin> set [''daily/2025-08-01-backup.sql'',
                 ''daily/2025-08-02-backup.sql'']) (objects (bucket august_dailies))"
    unfolding now map_fst_listing august_prunable_midnight .
  then have "map fst (objects (snd (cleanupOldDailyBackups ?env (bucket august_dailies))))
       = [''daily/2025-08-03-backup.sql'', ''daily/2025-08-04-backup.sql'',
          ''daily/2025-08-05-backup.sql'', ''daily/2025-08-06-backup.sql'',
          ''daily/2025-08-07-backup.sql'', ''daily/2025-08-08-backup.sql'',
          ''daily/2025-08-09-backup.sql'', ''daily/2025-08-10-backup.sql'']"
    by (simp add: bucket_def august_dailies_def daily_of_def)
  with listing tod c show ?thesis by (intro conjI)
qed

text \<open>The claim as stated fails at the scheduled hour: at 02:00 UTC on 10 August 2025 the daily
  of 3 August, exactly seven days before today's date, is deleted with those of 1 and 2
  August.\<close>

theorem third_of_august_pruned_counterexample:
  "map_of august_dailies ''daily/2025-08-03-backup.sql'' = Some (stored ''-- 2025-08-03'' 0)
   \<and> absDay \<lparr>Year = 2025, Month = 8, Day = 3, Nanos = 0\<rparr> + 7 = absDay (at_0200 2025 8 10)
   \<and> calls (snd (cleanupOldDailyBackups (quiet_env [] (at_0200 2025 8 10)) (bucket august_dailies)))
       = [ListObjectsV2_call ''daily/'',
          DeleteObject_call ''daily/2025-08-01-backup.sql'',
          DeleteObject_call ''daily/2025-08-02-backup.sql'',
          DeleteObject_call ''daily/2025-08-03-backup.sql'']
   \<and> map fst (objects (snd (cleanupOldDailyBackups (quiet_env [] (at_0200 2025 8 10))
                               (bucket august_dailies))))
       = [''daily/2025-08-04-backup.sql'', ''daily/2025-08-05-backup.sql'',
          ''daily/2025-08-06-backup.sql'', ''daily/2025-08-07-backup.sql'',
          ''daily/2025-08-08-backup.sql'', ''daily/2025-08-09-backup.sql'',
          ''daily/2025-08-10-backup.sql'']"
proof -
  let ?env = "quiet_env [] (at_0200 2025 8 10)"
  let ?w1 = "(bucket august_dailies)\<lparr>calls := [ListObjectsV2_call ''daily/'']\<rparr>"
  let ?contents = "map (\<lambda>(k, ob). (k, LastModified ob)) august_dailies"
  have now: "now_cleanup ?env = at_0200 2025 8 10" by (simp add: quiet_env_def)
  have there: "map_of august_dailies ''daily/2025-08-03-backup.sql'' = Some (stored ''-- 2025-08-03'' 0)"
    by (simp add: august_dailies_def daily_of_def)
  have week: "absDay \<lparr>Year = 2025, Month = 8, Day = 3, Nanos = 0\<rparr> + 7 = absDay (at_0200 2025 8 10)"
    by (simp add: time_eval prune_eval)
  have run: "snd (cleanupOldDailyBackups ?env (bucket august_dailies)) =
               cleanup_loop ?env (AddDate_days (at_0200 2025 8 10) (- 7)) ?contents ?w1"
    by (simp add: cleanupOldDailyBackups_listed [OF august_listing] now)
  have c: "calls (snd (cleanupOldDailyBackups ?env (bucket august_dailies)))
       = [ListObjectsV2_call ''daily/'',
          DeleteObject_call ''daily/2025-08-01-backup.sql'',
          DeleteObject_call ''daily/2025-08-02-backup.sql'',
          DeleteObject_call ''daily/2025-08-03-backup.sql'']"
    unfolding run cleanup_loop_calls map_fst_listing august_prunable_0200
    by (simp add: bucket_def)
  have "objects (snd (cleanupOldDailyBackups ?env (bucket august_dailies))) =
          filter (\<lambda>(k, ob). k \<notin> set [''daily/2025-08-01-backup.sql'',
                     ''daily/2025-08-02-backup.sql'', ''daily/2025-08-03-backup.sql''])
            (objects ?w1)"
  proof -
    have "\<forall>i < length (filter (prunable (AddDate_days (at_0200 2025 8 10) (- 7)))
                           (map fst ?contents)).
            faults ?env (length (calls ?w1) + i) = None"
      by (simp add: quiet_env_def)
    from cleanup_loop_no_faults [OF this] show ?thesis
      unfolding run map_fst_listing august_prunable_0200 .
  qed
  then have "map fst (objects (snd (cleanupOldDailyBackups ?env (bucket august_dailies))))
       = [''daily/2025-08-04-backup.sql'', ''daily/2025-08-05-backup.sql'',
          ''daily/2025-08-06-backup.sql'', ''daily/2025-08-07-backup.sql'',
          ''daily/2025-08-08-backup.sql'', ''daily/2025-08-09-backup.sql'',
          ''daily/2025-08-10-backup.sql'']"
    by (simp add: bucket_def august_dailies_def daily_of_def)
  with there week c show ?thesis by (intro conjI)
qed

subsection \<open>C6\<close>

text \<open>
  Claim C6. Two payloads that differ only in lines beginning with \<open>-- Started on\<close> or
  \<open>-- Completed on\<close> normalise to the same bytes and so have the same fingerprint.
\<close>

theorem timestamp_lines_do_not_change_fingerprint:
  assumes "lines_differ_only_in_timestamps (Split x newline) (Split y newline)"
  shows "removeTimestampComments x = removeTimestampComments y \<and>
         calculateChecksum env (removeTimestampComments x) =
         calculateChecksum env (removeTimestampComments y)"
proof -
  from assms have "removeTimestampComments x = removeTimestampComments y"
    by (simp add: removeTimestampComments_def lines_differ_filter)
  then show ?thesis by simp
qed

text \<open>Two dumps of the same table taken a day apart.\<close>

theorem timestamp_lines_do_not_change_fingerprint_witness:
  "lines_differ_only_in_timestamps
     (Split (dump_of ''2025-08-09 02:00:03 UTC'') newline)
     (Split (dump_of ''2025-08-10 02:00:01 UTC'') newline)
   \<and> dump_of ''2025-08-09 02:00:03 UTC'' \<noteq> dump_of ''2025-08-10 02:00:01 UTC''
   \<and> removeTimestampComments (dump_of ''2025-08-09 02:00:03 UTC'') =
       removeTimestampComments (dump_of ''2025-08-10 02:00:01 UTC'')
   \<and> calculateChecksum env_0810 (removeTimestampComments (dump_of ''2025-08-09 02:00:03 UTC'')) =
       calculateChecksum env_0810 (removeTimestampComments (dump_of ''2025-08-10 02:00:01 UTC''))"
proof -
  have h: "lines_differ_only_in_timestamps
     (Split (dump_of ''2025-08-09 02:00:03 UTC'') newline)
     (Split (dump_of ''2025-08-10 02:00:01 UTC'') newline)"
    by (simp add: dump_of_def newline_def is_timestamp_comment_def HasPrefix_def)
  have "dump_of ''2025-08-09 02:00:03 UTC'' \<noteq> dump_of ''2025-08-10 02:00:01 UTC''"
    by (simp add: dump_of_def)
  with timestamp_lines_do_not_change_fingerprint [OF h, of env_0810] h
  show ?thesis by simp
qed

subsection \<open>C7\<close>

text \<open>
  Claim C7. For the most recent daily object, when the request for its metadata succeeds: a
  \<open>sha256\<close> metadata field is returned as it is, with no request for the payload; without
  that field the payload is fetched and hashed, and the lookup gives the digest of the stored
  payload or an error, the digest whenever the fetch and the read succeed. In neither case
  does the run fail for it: with an equal fingerprint it is skipped, and otherwise (also when
  the fetch failed) it goes on to the uploads as for changed content.
\<close>

theorem checksum_lookup_tolerates_missing_metadata:
  assumes backup: "createBackup env = Inr backupData"
    and recent: "findMostRecentBackup env ''daily/'' (started w0) = (Inr key, w1)"
    and key: "key \<noteq> []"
    and ob: "map_of (objects w0) key = Some ob"
    and head_ok: "faults env (length (calls w1)) = None"
  shows "(\<forall>c. map_of (Metadata ob) ''sha256'' = Some c \<longrightarrow>
            getObjectChecksum env key w1 =
              (Inr c, w1\<lparr>calls := calls w1 @ [HeadObject_call key]\<rparr>))
       \<and> (map_of (Metadata ob) ''sha256'' = None \<longrightarrow>
            (\<exists>r w2. getObjectChecksum env key w1 = (r, w2)
               \<and> take 2 (new_calls w1 w2) = [HeadObject_call key, GetObject_call key]
               \<and> (r = Inr (hex_EncodeToString (sha256_Sum256 env (Body ob))) \<or> (\<exists>err. r = Inl err))
               \<and> (faults env (length (calls w1) + 1) = None \<and>
                    faults env (length (calls w1) + 2) = None \<longrightarrow>
                    r = Inr (hex_EncodeToString (sha256_Sum256 env (Body ob))))
               \<and> HandleRequest env w0 =
                   (if r = Inr (calculateChecksum env backupData)
                    then (Inr (), log_Printf ''Backup content unchanged from %s, skipping all uploads''
                                    [key] w2)
                    else upload_and_cleanup env backupData (calculateChecksum env backupData) w2)))"
proof -
  from findMostRecentBackup_frame [OF recent] have "objects w1 = objects w0"
    by simp
  with ob have ob1: "map_of (objects w1) key = Some ob" by simp
  note head = HeadObject_present [OF ob1 head_ok]
  have fast: "getObjectChecksum env key w1 =
                (Inr c, w1\<lparr>calls := calls w1 @ [HeadObject_call key]\<rparr>)"
    if "map_of (Metadata ob) ''sha256'' = Some c" for c
    using that head by (simp add: getObjectChecksum_def)
  have slow: "\<exists>r w2. getObjectChecksum env key w1 = (r, w2)
               \<and> take 2 (new_calls w1 w2) = [HeadObject_call key, GetObject_call key]
               \<and> (r = Inr (hex_EncodeToString (sha256_Sum256 env (Body ob))) \<or> (\<exists>err. r = Inl err))
               \<and> (faults env (length (calls w1) + 1) = None \<and>
                    faults env (length (calls w1) + 2) = None \<longrightarrow>
                    r = Inr (hex_EncodeToString (sha256_Sum256 env (Body ob))))
               \<and> HandleRequest env w0 =
                   (if r = Inr (calculateChecksum env backupData)
                    then (Inr (), log_Printf ''Backup content unchanged from %s, skipping all uploads''
                                    [key] w2)
                    else upload_and_cleanup env backupData (calculateChecksum env backupData) w2)"
    if none: "map_of (Metadata ob) ''sha256'' = None"
  proof -
    obtain r w2 where r: "getObjectChecksum env key w1 = (r, w2)"
      by (cases "getObjectChecksum env key w1") auto
    have "take 2 (new_calls w1 w2) = [HeadObject_call key, GetObject_call key]"
      and "r = Inr (hex_EncodeToString (sha256_Sum256 env (Body ob))) \<or> (\<exists>err. r = Inl err)"
      and "faults env (length (calls w1) + 1) = None \<and>
                    faults env (length (calls w1) + 2) = None \<longrightarrow>
                    r = Inr (hex_EncodeToString (sha256_Sum256 env (Body ob)))"
      using r none head ob1
      by (auto simp: getObjectChecksum_def GetObject_def read_Body_def request_def new_calls_def
               split: option.splits)
    with r HandleRequest_after_lookup [OF backup recent key r] show ?thesis by blast
  qed
  from fast slow show ?thesis by blast
qed

text \<open>A most recent object with the metadata field, and one without it whose payload is fetched.\<close>

theorem checksum_lookup_tolerates_missing_metadata_witness:
  "createBackup env_0810 = Inr table_sql
   \<and> map_of (objects (bucket [(''daily/2025-08-09-backup.sql'', stored table_sql 20309)]))
         ''daily/2025-08-09-backup.sql'' = Some (stored table_sql 20309)
   \<and> map_of (Metadata (stored table_sql 20309)) ''sha256'' = Some (hex_EncodeToString table_sql)
   \<and> getObjectChecksum env_0810 ''daily/2025-08-09-backup.sql''
         ((started (bucket [(''daily/2025-08-09-backup.sql'', stored table_sql 20309)]))
            \<lparr>calls := [ListObjectsV2_call ''daily/'']\<rparr>)
       = (Inr (hex_EncodeToString table_sql),
          (started (bucket [(''daily/2025-08-09-backup.sql'', stored table_sql 20309)]))
            \<lparr>calls := [ListObjectsV2_call ''daily/'',
                        HeadObject_call ''daily/2025-08-09-backup.sql'']\<rparr>)
   \<and> map_of (Metadata (legacy (dump_of ''2025-08-09'') 20309)) ''sha256'' = None
   \<and> (\<exists>w2. getObjectChecksum env_0810 ''daily/2025-08-09-backup.sql''
               ((started (bucket [(''daily/2025-08-09-backup.sql'',
                                   legacy (dump_of ''2025-08-09'') 20309)]))
                  \<lparr>calls := [ListObjectsV2_call ''daily/'']\<rparr>)
              = (Inr (hex_EncodeToString (sha256_Sum256 env_0810 (dump_of ''2025-08-09''))), w2)
            \<and> HandleRequest env_0810
                 (bucket [(''daily/2025-08-09-backup.sql'', legacy (dump_of ''2025-08-09'') 20309)])
              = (if Inr (hex_EncodeToString (sha256_Sum256 env_0810 (dump_of ''2025-08-09'')))
                      = (Inr (calculateChecksum env_0810 table_sql) :: string + string)
                 then (Inr (), log_Printf ''Backup content unchanged from %s, skipping all uploads''
                                 [''daily/2025-08-09-backup.sql''] w2)
                 else upload_and_cleanup env_0810 table_sql
                        (calculateChecksum env_0810 table_sql) w2))"
proof -
  let ?key = "''daily/2025-08-09-backup.sql''"
  let ?new = "bucket [(?key, stored table_sql 20309)]"
  let ?old = "bucket [(?key, legacy (dump_of ''2025-08-09'') 20309)]"
  let ?new1 = "(started ?new)\<lparr>calls := [ListObjectsV2_call ''daily/'']\<rparr>"
  let ?old1 = "(started ?old)\<lparr>calls := [ListObjectsV2_call ''daily/'']\<rparr>"
  have backup: "createBackup env_0810 = Inr table_sql"
    by (simp add: createBackup_def world_eval dump_normalised)
  have key: "?key \<noteq> []" by simp
  have quiet: "faults env_0810 n = None" for n
    by (simp add: world_eval)
  have recent_new: "findMostRecentBackup env_0810 ''daily/'' (started ?new) = (Inr ?key, ?new1)"
    by (simp add: findMostRecentBackup_def ListObjectsV2_def world_eval)
  have recent_old: "findMostRecentBackup env_0810 ''daily/'' (started ?old) = (Inr ?key, ?old1)"
    by (simp add: findMostRecentBackup_def ListObjectsV2_def world_eval)
  have ob_new: "map_of (objects ?new) ?key = Some (stored table_sql 20309)"
    by (simp add: bucket_def)
  have ob_old: "map_of (objects ?old) ?key = Some (legacy (dump_of ''2025-08-09'') 20309)"
    by (simp add: bucket_def)
  have md_new: "map_of (Metadata (stored table_sql 20309)) ''sha256''
                  = Some (hex_EncodeToString table_sql)"
    by (simp add: stored_def example_digest_def)
  have md_old: "map_of (Metadata (legacy (dump_of ''2025-08-09'') 20309)) ''sha256'' = None"
    by (simp add: legacy_def)
  from checksum_lookup_tolerates_missing_metadata [OF backup recent_new key ob_new quiet] md_new
  have "getObjectChecksum env_0810 ?key ?new1 =
          (Inr (hex_EncodeToString table_sql),
           ?new1\<lparr>calls := calls ?new1 @ [HeadObject_call ?key]\<rparr>)"
    by blast
  then have fast: "getObjectChecksum env_0810 ?key ?new1 =
          (Inr (hex_EncodeToString table_sql),
           (started ?new)\<lparr>calls := [ListObjectsV2_call ''daily/'', HeadObject_call ?key]\<rparr>)"
    by simp
  from checksum_lookup_tolerates_missing_metadata [OF backup recent_old key ob_old quiet] md_old
  obtain r w2 where slow: "getObjectChecksum env_0810 ?key ?old1 = (r, w2)"
    and r: "faults env_0810 (length (calls ?old1) + 1) = None \<and>
            faults env_0810 (length (calls ?old1) + 2) = None \<longrightarrow>
            r = Inr (hex_EncodeToString (sha256_Sum256 env_0810
                       (Body (legacy (dump_of ''2025-08-09'') 20309))))"
    and run: "HandleRequest env_0810 ?old =
                (if r = Inr (calculateChecksum env_0810 table_sql)
                 then (Inr (), log_Printf ''Backup content unchanged from %s, skipping all uploads''
                                 [?key] w2)
                 else upload_and_cleanup env_0810 table_sql
                        (calculateChecksum env_0810 table_sql) w2)"
    by blast
  from r quiet have "r = Inr (hex_EncodeToString (sha256_Sum256 env_0810 (dump_of ''2025-08-09'')))"
    by (simp add: legacy_def)
  with slow run have "\<exists>w2. getObjectChecksum env_0810 ?key ?old1
              = (Inr (hex_EncodeToString (sha256_Sum256 env_0810 (dump_of ''2025-08-09''))), w2)
            \<and> HandleRequest env_0810 ?old
              = (if Inr (hex_EncodeToString (sha256_Sum256 env_0810 (dump_of ''2025-08-09'')))
                      = (Inr (calculateChecksum env_0810 table_sql) :: string + string)
                 then (Inr (), log_Printf ''Backup content unchanged from %s, skipping all uploads''
                                 [?key] w2)
                 else upload_and_cleanup env_0810 table_sql
                        (calculateChecksum env_0810 table_sql) w2)"
    by blast
  with backup ob_new md_new fast md_old show ?thesis by (intro conjI)
qed

subsection \<open>C8\<close>

text \<open>
  Claim C8. Normalisation is idempotent: for every byte payload \<open>x\<close>, removing the
  timestamp comments twice gives the same bytes as removing them once.
\<close>

theorem removeTimestampComments_idempotent:
  "removeTimestampComments (removeTimestampComments x) = removeTimestampComments x"
proof -
  define kept where
    "kept = filter (\<lambda>line. \<not> is_timestamp_comment line) (Split x newline)"
  have once: "removeTimestampComments x = Join kept newline"
    by (simp add: removeTimestampComments_def kept_def)
  show ?thesis
  proof (cases "kept = []")
    case True
    then show ?thesis by (simp add: once removeTimestampComments_Nil)
  next
    case False
    have "\<forall>l \<in> set kept. newline \<notin> set l"
      by (auto simp: kept_def dest: Split_no_sep)
    with False have "Split (Join kept newline) newline = kept"
      by (rule Split_Join)
    moreover have "filter (\<lambda>line. \<not> is_timestamp_comment line) kept = kept"
      by (simp add: kept_def)
    ultimately have "removeTimestampComments (Join kept newline) = Join kept newline"
      by (simp add: removeTimestampComments_def)
    then show ?thesis by (simp only: once)
  qed
qed

subsection \<open>C9\<close>

text \<open>
  Claim C9, as amended. Once the daily prefix is listed, the cleanup never fails. It requests the
  deletion of every listed key that qualifies, whatever became of the earlier requests; a key
  with exactly one slash whose date does not parse gets a warning in the log (and no request);
  a key that does not split into exactly two parts at its slashes is passed over with no
  warning and no request, as if it had not been listed; a failed deletion gets a warning in the
  log, a successful one removes the object; and a run that got through its uploads returns
  success whatever the cleanup did.
\<close>

theorem pruning_is_best_effort:
  assumes listing: "ListObjectsV2 env ''daily/'' w = (Inr contents, w1)"
  shows "fst (cleanupOldDailyBackups env w) = Inr ()
       \<and> calls (snd (cleanupOldDailyBackups env w)) =
           calls w1 @ map DeleteObject_call
             (filter (prunable (AddDate_days (now_cleanup env) (- 7))) (map fst contents))
       \<and> (\<forall>pre obj post. contents = pre @ obj # post \<longrightarrow>
            (\<forall>dir name err.
                Split (fst obj) (CHR ''/'') = [dir, name] \<and>
                time_Parse (TrimSuffix name ''-backup.sql'') = Inl err \<longrightarrow>
                Printf ''Warning: failed to parse date from key %s: %v'' [fst obj, err]
                  \<in> set (logs (snd (cleanupOldDailyBackups env w))))
            \<and> (length (Split (fst obj) (CHR ''/'')) \<noteq> 2 \<longrightarrow>
                 snd (cleanupOldDailyBackups env w) =
                   cleanup_loop env (AddDate_days (now_cleanup env) (- 7)) (pre @ post) w1)
            \<and> (prunable (AddDate_days (now_cleanup env) (- 7)) (fst obj) \<longrightarrow>
                 (case faults env
                         (length (calls w1) +
                          length (filter (prunable (AddDate_days (now_cleanup env) (- 7)))
                                    (map fst pre))) of
                    Some err \<Rightarrow>
                      Printf ''Warning: failed to delete old backup %s: %v'' [fst obj, err]
                        \<in> set (logs (snd (cleanupOldDailyBackups env w)))
                  | None \<Rightarrow>
                      map_of (objects (snd (cleanupOldDailyBackups env w))) (fst obj) = None)))
       \<and> (\<forall>d c w0 w2 wm wy.
            uploadToS3WithChecksum env (dailyKey env) d c w0 = (Inr (), w2) \<longrightarrow>
            periodic_backup env ''monthly'' ''Monthly'' (monthlyKey env) d c
              (log_Printf ''Daily backup uploaded: %s'' [dailyKey env] w2) = (Inr (), wm) \<longrightarrow>
            periodic_backup env ''yearly'' ''Yearly'' (yearlyKey env) d c wm = (Inr (), wy) \<longrightarrow>
            fst (upload_and_cleanup env d c w0) = Inr ())"
proof -
  let ?cutoff = "AddDate_days (now_cleanup env) (- 7)"
  let ?end = "snd (cleanupOldDailyBackups env w)"
  note run = cleanupOldDailyBackups_listed [OF listing]
  have r: "fst (cleanupOldDailyBackups env w) = Inr ()"
    and e: "?end = cleanup_loop env ?cutoff contents w1"
    using run by simp_all
  have c: "calls ?end = calls w1 @ map DeleteObject_call (filter (prunable ?cutoff) (map fst contents))"
    by (simp add: e cleanup_loop_calls)
  have per_object:
    "(\<forall>dir name err.
        Split (fst obj) (CHR ''/'') = [dir, name] \<and>
        time_Parse (TrimSuffix name ''-backup.sql'') = Inl err \<longrightarrow>
        Printf ''Warning: failed to parse date from key %s: %v'' [fst obj, err] \<in> set (logs ?end))
     \<and> (length (Split (fst obj) (CHR ''/'')) \<noteq> 2 \<longrightarrow>
          ?end = cleanup_loop env ?cutoff (pre @ post) w1)
     \<and> (prunable ?cutoff (fst obj) \<longrightarrow>
         (case faults env (length (calls w1) + length (filter (prunable ?cutoff) (map fst pre))) of
            Some err \<Rightarrow>
              Printf ''Warning: failed to delete old backup %s: %v'' [fst obj, err] \<in> set (logs ?end)
          | None \<Rightarrow> map_of (objects ?end) (fst obj) = None))"
    if split: "contents = pre @ obj # post" for pre obj post
  proof -
    let ?before = "cleanup_loop env ?cutoff pre w1"
    let ?at = "cleanup_step env ?cutoff obj ?before"
    have pos: "?end = cleanup_loop env ?cutoff post ?at"
      using cleanup_loop_position [OF split] e by simp
    have n: "length (calls ?before) =
               length (calls w1) + length (filter (prunable ?cutoff) (map fst pre))"
      by (simp add: cleanup_loop_calls)
    have parse: "Printf ''Warning: failed to parse date from key %s: %v'' [fst obj, err]
                   \<in> set (logs ?end)"
      if "Split (fst obj) (CHR ''/'') = [dir, name]"
        and "time_Parse (TrimSuffix name ''-backup.sql'') = Inl err" for dir name err
    proof -
      from cleanup_step_unparsable [OF that]
      have "Printf ''Warning: failed to parse date from key %s: %v'' [fst obj, err]
              \<in> set (logs ?at)" by simp
      then show ?thesis unfolding pos by (rule cleanup_loop_keeps_log)
    qed
    have del: "case faults env (length (calls w1) + length (filter (prunable ?cutoff) (map fst pre))) of
            Some err \<Rightarrow>
              Printf ''Warning: failed to delete old backup %s: %v'' [fst obj, err] \<in> set (logs ?end)
          | None \<Rightarrow> map_of (objects ?end) (fst obj) = None"
      if p: "prunable ?cutoff (fst obj)"
    proof (cases "faults env (length (calls ?before))")
      case None
      with cleanup_step_prunable [OF p, of env ?before]
      have "map_of (objects ?at) (fst obj) = None" by simp
      then have "map_of (objects ?end) (fst obj) = None"
        unfolding pos by (rule cleanup_loop_keeps_absent)
      with None n show ?thesis by simp
    next
      case (Some err)
      with cleanup_step_prunable [OF p, of env ?before]
      have "Printf ''Warning: failed to delete old backup %s: %v'' [fst obj, err] \<in> set (logs ?at)"
        by simp
      then have "Printf ''Warning: failed to delete old backup %s: %v'' [fst obj, err]
                   \<in> set (logs ?end)"
        unfolding pos by (rule cleanup_loop_keeps_log)
      with Some n show ?thesis by simp
    qed
    have silent: "?end = cleanup_loop env ?cutoff (pre @ post) w1"
      if "length (Split (fst obj) (CHR ''/'')) \<noteq> 2"
    proof -
      from that have "?at = ?before" by (simp add: cleanup_step_def)
      then show ?thesis by (simp add: pos cleanup_loop_append)
    qed
    from parse silent del show ?thesis by blast
  qed
  have run_ok: "fst (upload_and_cleanup env d c w0) = Inr ()"
    if "uploadToS3WithChecksum env (dailyKey env) d c w0 = (Inr (), w2)"
      and "periodic_backup env ''monthly'' ''Monthly'' (monthlyKey env) d c
              (log_Printf ''Daily backup uploaded: %s'' [dailyKey env] w2) = (Inr (), wm)"
      and "periodic_backup env ''yearly'' ''Yearly'' (yearlyKey env) d c wm = (Inr (), wy)"
    for d c w0 w2 wm wy
    using that by (simp add: upload_and_cleanup_def)
  from r c per_object run_ok show ?thesis by blast
qed

text \<open>A listing with a key that is no date, a key one directory further down and two old
  dailies, the first deletion failing: both deletions are requested, the key that is no date gets
  the warning with the library's text, the deeper key changes nothing, the failure is logged and
  the second object is gone.\<close>

theorem pruning_is_best_effort_witness:
  "ListObjectsV2 (failing_env [] (at_0200 2025 8 10) 1 ''AccessDenied'') ''daily/''
       (bucket [(''daily/latest.sql'', legacy ''a'' 3),
                (''daily/archive/2025-07-01-backup.sql'', legacy ''d'' 4),
                (''daily/2025-07-01-backup.sql'', legacy ''b'' 1),
                (''daily/2025-07-02-backup.sql'', legacy ''c'' 2)])
     = (Inr [(''daily/latest.sql'', 3), (''daily/archive/2025-07-01-backup.sql'', 4),
             (''daily/2025-07-01-backup.sql'', 1), (''daily/2025-07-02-backup.sql'', 2)],
        (bucket [(''daily/latest.sql'', legacy ''a'' 3),
                 (''daily/archive/2025-07-01-backup.sql'', legacy ''d'' 4),
                 (''daily/2025-07-01-backup.sql'', legacy ''b'' 1),
                 (''daily/2025-07-02-backup.sql'', legacy ''c'' 2)])
          \<lparr>calls := [ListObjectsV2_call ''daily/'']\<rparr>)
   \<and> fst (cleanupOldDailyBackups (failing_env [] (at_0200 2025 8 10) 1 ''AccessDenied'')
            (bucket [(''daily/latest.sql'', legacy ''a'' 3),
                     (''daily/archive/2025-07-01-backup.sql'', legacy ''d'' 4),
                     (''daily/2025-07-01-backup.sql'', legacy ''b'' 1),
                     (''daily/2025-07-02-backup.sql'', legacy ''c'' 2)])) = Inr ()
   \<and> calls (snd (cleanupOldDailyBackups (failing_env [] (at_0200 2025 8 10) 1 ''AccessDenied'')
            (bucket [(''daily/latest.sql'', legacy ''a'' 3),
                     (''daily/archive/2025-07-01-backup.sql'', legacy ''d'' 4),
                     (''daily/2025-07-01-backup.sql'', legacy ''b'' 1),
                     (''daily/2025-07-02-backup.sql'', legacy ''c'' 2)])))
       = [ListObjectsV2_call ''daily/'',
          DeleteObject_call ''daily/2025-07-01-backup.sql'',
          DeleteObject_call ''daily/2025-07-02-backup.sql'']
   \<and> Printf ''Warning: failed to parse date from key %s: %v''
         [''daily/latest.sql'',
          ''parsing time '' @ [CHR 0x22] @ ''latest.sql'' @ [CHR 0x22] @ '' as '' @ [CHR 0x22]
            @ ''2006-01-02'' @ [CHR 0x22] @ '': cannot parse '' @ [CHR 0x22] @ ''latest.sql''
            @ [CHR 0x22] @ '' as '' @ [CHR 0x22] @ ''2006'' @ [CHR 0x22]]
       \<in> set (logs (snd (cleanupOldDailyBackups
                  (failing_env [] (at_0200 2025 8 10) 1 ''AccessDenied'')
                  (bucket [(''daily/latest.sql'', legacy ''a'' 3),
                           (''daily/archive/2025-07-01-backup.sql'', legacy ''d'' 4),
                           (''daily/2025-07-01-backup.sql'', legacy ''b'' 1),
                           (''daily/2025-07-02-backup.sql'', legacy ''c'' 2)]))))
   \<and> length (Split ''daily/archive/2025-07-01-backup.sql'' (CHR ''/'')) = 3
   \<and> snd (cleanupOldDailyBackups (failing_env [] (at_0200 2025 8 10) 1 ''AccessDenied'')
            (bucket [(''daily/latest.sql'', legacy ''a'' 3),
                     (''daily/archive/2025-07-01-backup.sql'', legacy ''d'' 4),
                     (''daily/2025-07-01-backup.sql'', legacy ''b'' 1),
                     (''daily/2025-07-02-backup.sql'', legacy ''c'' 2)]))
       = cleanup_loop (failing_env [] (at_0200 2025 8 10) 1 ''AccessDenied'')
           (AddDate_days (now_cleanup (failing_env [] (at_0200 2025 8 10) 1 ''AccessDenied'')) (- 7))
           [(''daily/latest.sql'', 3), (''daily/2025-07-01-backup.sql'', 1),
            (''daily/2025-07-02-backup.sql'', 2)]
           ((bucket [(''daily/latest.sql'', legacy ''a'' 3),
                     (''daily/archive/2025-07-01-backup.sql'', legacy ''d'' 4),
                     (''daily/2025-07-01-backup.sql'', legacy ''b'' 1),
                     (''daily/2025-07-02-backup.sql'', legacy ''c'' 2)])
              \<lparr>calls := [ListObjectsV2_call ''daily/'']\<rparr>)
   \<and> Printf ''Warning: failed to delete old backup %s: %v''
         [''daily/2025-07-01-backup.sql'', ''AccessDenied'']
       \<in> set (logs (snd (cleanupOldDailyBackups
                  (failing_env [] (at_0200 2025 8 10) 1 ''AccessDenied'')
                  (bucket [(''daily/latest.sql'', legacy ''a'' 3),
                           (''daily/archive/2025-07-01-backup.sql'', legacy ''d'' 4),
                           (''daily/2025-07-01-backup.sql'', legacy ''b'' 1),
                           (''daily/2025-07-02-backup.sql'', legacy ''c'' 2)]))))
   \<and> map_of (objects (snd (cleanupOldDailyBackups
                  (failing_env [] (at_0200 2025 8 10) 1 ''AccessDenied'')
                  (bucket [(''daily/latest.sql'', legacy ''a'' 3),
                           (''daily/archive/2025-07-01-backup.sql'', legacy ''d'' 4),
                           (''daily/2025-07-01-backup.sql'', legacy ''b'' 1),
                           (''daily/2025-07-02-backup.sql'', legacy ''c'' 2)]))))
         ''daily/2025-07-02-backup.sql'' = None"
proof -
  let ?env = "failing_env [] (at_0200 2025 8 10) 1 ''AccessDenied''"
  let ?w = "bucket [(''daily/latest.sql'', legacy ''a'' 3),
                    (''daily/archive/2025-07-01-backup.sql'', legacy ''d'' 4),
                    (''daily/2025-07-01-backup.sql'', legacy ''b'' 1),
                    (''daily/2025-07-02-backup.sql'', legacy ''c'' 2)]"
  let ?w1 = "?w\<lparr>calls := [ListObjectsV2_call ''daily/'']\<rparr>"
  let ?contents = "[(''daily/latest.sql'', 3 :: int), (''daily/archive/2025-07-01-backup.sql'', 4),
                    (''daily/2025-07-01-backup.sql'', 1), (''daily/2025-07-02-backup.sql'', 2)]"
  let ?cut = "AddDate_days (now_cleanup ?env) (- 7)"
  let ?end = "snd (cleanupOldDailyBackups ?env ?w)"
  have listing: "ListObjectsV2 ?env ''daily/'' ?w = (Inr ?contents, ?w1)"
    by (simp add: ListObjectsV2_def world_eval)
  have p: "\<not> prunable ?cut ''daily/latest.sql''"
      "\<not> prunable ?cut ''daily/archive/2025-07-01-backup.sql''"
      "prunable ?cut ''daily/2025-07-01-backup.sql''"
      "prunable ?cut ''daily/2025-07-02-backup.sql''"
    by (simp_all add: world_eval time_eval prune_eval)
  have malformed: "Split ''daily/latest.sql'' (CHR ''/'') = [''daily'', ''latest.sql'']
      \<and> time_Parse (TrimSuffix ''latest.sql'' ''-backup.sql'')
          = Inl (''parsing time '' @ [CHR 0x22] @ ''latest.sql'' @ [CHR 0x22] @ '' as ''
                 @ [CHR 0x22] @ ''2006-01-02'' @ [CHR 0x22] @ '': cannot parse '' @ [CHR 0x22]
                 @ ''latest.sql'' @ [CHR 0x22] @ '' as '' @ [CHR 0x22] @ ''2006'' @ [CHR 0x22])"
    by (simp add: prune_eval parse_text_eval)
  have nested: "length (Split ''daily/archive/2025-07-01-backup.sql'' (CHR ''/'')) = 3"
    by simp
  note T = pruning_is_best_effort [OF listing]
  note ok = T [THEN conjunct1]
  from T [THEN conjunct2, THEN conjunct1] p
  have c: "calls ?end = [ListObjectsV2_call ''daily/'',
          DeleteObject_call ''daily/2025-07-01-backup.sql'',
          DeleteObject_call ''daily/2025-07-02-backup.sql'']"
    by (simp add: bucket_fields)
  note each = T [THEN conjunct2, THEN conjunct2, THEN conjunct1, rule_format]
  have s0: "?contents = [] @ (''daily/latest.sql'', 3) #
                    [(''daily/archive/2025-07-01-backup.sql'', 4),
                     (''daily/2025-07-01-backup.sql'', 1), (''daily/2025-07-02-backup.sql'', 2)]"
    by simp
  have s1: "?contents = [(''daily/latest.sql'', 3)] @ (''daily/archive/2025-07-01-backup.sql'', 4) #
                    [(''daily/2025-07-01-backup.sql'', 1), (''daily/2025-07-02-backup.sql'', 2)]"
    by simp
  have s2: "?contents = [(''daily/latest.sql'', 3), (''daily/archive/2025-07-01-backup.sql'', 4)] @
                    (''daily/2025-07-01-backup.sql'', 1) # [(''daily/2025-07-02-backup.sql'', 2)]"
    by simp
  have s3: "?contents = [(''daily/latest.sql'', 3), (''daily/archive/2025-07-01-backup.sql'', 4),
                     (''daily/2025-07-01-backup.sql'', 1)] @
                    (''daily/2025-07-02-backup.sql'', 2) # []" by simp
  from each [OF s0, THEN conjunct1, rule_format, of "''daily''" "''latest.sql''"] malformed
  have warn_parse: "Printf ''Warning: failed to parse date from key %s: %v''
         [''daily/latest.sql'',
          ''parsing time '' @ [CHR 0x22] @ ''latest.sql'' @ [CHR 0x22] @ '' as '' @ [CHR 0x22]
            @ ''2006-01-02'' @ [CHR 0x22] @ '': cannot parse '' @ [CHR 0x22] @ ''latest.sql''
            @ [CHR 0x22] @ '' as '' @ [CHR 0x22] @ ''2006'' @ [CHR 0x22]]
       \<in> set (logs ?end)"
    by simp
  from each [OF s1, THEN conjunct2, THEN conjunct1] nested
  have silent: "?end = cleanup_loop ?env ?cut
           [(''daily/latest.sql'', 3), (''daily/2025-07-01-backup.sql'', 1),
            (''daily/2025-07-02-backup.sql'', 2)] ?w1"
    by simp
  from each [OF s2, THEN conjunct2, THEN conjunct2] p
  have warn_delete: "Printf ''Warning: failed to delete old backup %s: %v''
         [''daily/2025-07-01-backup.sql'', ''AccessDenied''] \<in> set (logs ?end)"
    by (simp add: world_eval)
  from each [OF s3, THEN conjunct2, THEN conjunct2] p
  have gone: "map_of (objects ?end) ''daily/2025-07-02-backup.sql'' = None"
    by (simp add: world_eval)
  from listing ok c warn_parse nested silent warn_delete gone show ?thesis by (intro conjI)
qed

text \<open>The claim as first stated has every key without a valid date skipped with a warning. A key
  under the daily prefix with a second slash carries no date the library accepts, whether the
  name is taken after the last slash or after the first; the cleanup passes it over and the log
  stays empty.\<close>

theorem silently_skipped_key_counterexample:
  "Split ''daily/archive/latest-backup.sql'' (CHR ''/'')
     = [''daily'', ''archive'', ''latest-backup.sql'']
   \<and> isl (time_Parse (TrimSuffix ''latest-backup.sql'' ''-backup.sql''))
   \<and> isl (time_Parse (TrimSuffix ''archive/latest-backup.sql'' ''-backup.sql''))
   \<and> cleanupOldDailyBackups (quiet_env [] (at_0200 2025 8 10))
         (bucket [(''daily/archive/latest-backup.sql'', legacy ''a'' 1)])
       = (Inr (),
          \<lparr>objects = [(''daily/archive/latest-backup.sql'', legacy ''a'' 1)],
           calls = [ListObjectsV2_call ''daily/''],
           logs = []\<rparr>)"
  by (simp add: cleanupOldDailyBackups_def ListObjectsV2_def world_eval time_eval prune_eval
        parse_text_eval)

subsection \<open>C10\<close>

text \<open>
  Claim C10. Every write a run requests is of the normalised dump, to the daily, monthly or
  yearly key of the run, with the metadata field \<open>sha256\<close> set to the hex digest of exactly
  that payload; and every object the run leaves in the bucket that was not there before has
  that payload under one of those keys, its \<open>sha256\<close> field being the hex digest of its own
  body.
\<close>

theorem every_write_carries_checksum_of_its_payload:
  assumes dump: "pg_dump env = Inr stdout"
  shows "(\<forall>c \<in> set (new_calls w (snd (HandleRequest env w))). is_PutObject c \<longrightarrow>
            (\<exists>k \<in> {dailyKey env, monthlyKey env, yearlyKey env}.
               c = PutObject_call k (removeTimestampComments stdout)
                     [(''sha256'',
                       hex_EncodeToString (sha256_Sum256 env (removeTimestampComments stdout)))]))
       \<and> (\<forall>k ob. map_of (objects (snd (HandleRequest env w))) k = Some ob \<longrightarrow>
            map_of (objects w) k \<noteq> Some ob \<longrightarrow>
            k \<in> {dailyKey env, monthlyKey env, yearlyKey env} \<and>
            Body ob = removeTimestampComments stdout \<and>
            Metadata ob = [(''sha256'', hex_EncodeToString (sha256_Sum256 env (Body ob)))])"
proof -
  from dump have "createBackup env = Inr (removeTimestampComments stdout)"
    by (simp add: createBackup_def)
  from only_writes_HandleRequest [OF this, of w]
  have ow: "only_writes {dailyKey env, monthlyKey env, yearlyKey env}
              (removeTimestampComments stdout)
              [(''sha256'', hex_EncodeToString (sha256_Sum256 env (removeTimestampComments stdout)))]
              w (snd (HandleRequest env w))"
    by (simp add: calculateChecksum_def)
  let ?K = "{dailyKey env, monthlyKey env, yearlyKey env}"
  let ?d = "removeTimestampComments stdout"
  let ?md = "[(''sha256'', hex_EncodeToString (sha256_Sum256 env ?d))]"
  from ow obtain cs where cs: "calls (snd (HandleRequest env w)) = calls w @ cs"
    "\<forall>c \<in> set cs. is_PutObject c \<longrightarrow> (\<exists>k \<in> ?K. c = PutObject_call k ?d ?md)"
    unfolding only_writes_def by blast
  from cs(1) have "new_calls w (snd (HandleRequest env w)) = cs"
    by (rule new_calls_append)
  with cs(2) have puts: "\<forall>c \<in> set (new_calls w (snd (HandleRequest env w))). is_PutObject c \<longrightarrow>
            (\<exists>k \<in> ?K. c = PutObject_call k ?d ?md)" by simp
  have objs: "k \<in> ?K \<and> Body ob = ?d \<and>
              Metadata ob = [(''sha256'', hex_EncodeToString (sha256_Sum256 env (Body ob)))]"
    if "map_of (objects (snd (HandleRequest env w))) k = Some ob"
      and "map_of (objects w) k \<noteq> Some ob" for k ob
  proof -
    from ow that have "k \<in> ?K \<and> Body ob = ?d \<and> Metadata ob = ?md"
      unfolding only_writes_def by blast
    then show ?thesis by simp
  qed
  from puts objs show ?thesis by blast
qed

text \<open>The writes of a first run on an empty bucket.\<close>

theorem every_write_carries_checksum_of_its_payload_witness:
  "pg_dump env_0810 = Inr (dump_of ''2025-08-10'')
   \<and> removeTimestampComments (dump_of ''2025-08-10'') = table_sql
   \<and> PutObject_call ''monthly/2025-08-backup.sql'' table_sql
         [(''sha256'', hex_EncodeToString (sha256_Sum256 env_0810 table_sql))]
       \<in> set (new_calls (bucket []) (snd (HandleRequest env_0810 (bucket []))))
   \<and> map_of (objects (snd (HandleRequest env_0810 (bucket [])))) ''yearly/2025-backup.sql''
       = Some (stored table_sql 20310)
   \<and> Body (stored table_sql 20310) = table_sql
   \<and> Metadata (stored table_sql 20310)
       = [(''sha256'', hex_EncodeToString (sha256_Sum256 env_0810 (Body (stored table_sql 20310))))]"
proof -
  let ?end = "snd (HandleRequest env_0810 (bucket []))"
  have dump: "pg_dump env_0810 = Inr (dump_of ''2025-08-10'')"
    by (simp add: world_eval)
  note norm = dump_normalised(2)
  note T = every_write_carries_checksum_of_its_payload [OF dump, of "bucket []"]
  have sha: "sha256_Sum256 env_0810 = example_digest"
    by (simp add: world_eval)
  have put: "PutObject_call ''monthly/2025-08-backup.sql'' table_sql
               [(''sha256'', hex_EncodeToString (sha256_Sum256 env_0810 table_sql))]
             \<in> set (new_calls (bucket []) ?end)"
    by (simp add: quiet_run new_calls_def bucket_fields sha example_digest_def)
  have there: "map_of (objects ?end) ''yearly/2025-backup.sql'' = Some (stored table_sql 20310)"
    by (simp add: quiet_run)
  have new: "map_of (objects (bucket [])) ''yearly/2025-backup.sql'' \<noteq> Some (stored table_sql 20310)"
    by (simp add: bucket_fields)
  from T [THEN conjunct2, rule_format, OF there new]
  have "Body (stored table_sql 20310) = removeTimestampComments (dump_of ''2025-08-10'')"
    and "Metadata (stored table_sql 20310) =
       [(''sha256'', hex_EncodeToString (sha256_Sum256 env_0810 (Body (stored table_sql 20310))))]"
    by simp_all
  with dump norm put there show ?thesis by simp
qed

end
